theory Spec2Isabelle
  imports Complex_Main "HOL-Library.Word" "HOL-Library.Sublist" "HOL-Library.Char_ord"
    "HOL-Library.List_Lexorder"
begin

section \<open>Shared primitives\<close>

text \<open>
  Times are milliseconds since the epoch (\<open>Date.now()\<close>, \<open>Date.getTime()\<close>) as \<open>int\<close>.
  \<open>String(n)\<close> of an integer is its decimal rendering.
\<close>

definition digit_char :: "int \<Rightarrow> char" where
  "digit_char d = ''0123456789'' ! nat d"

function dec_digits :: "int \<Rightarrow> string" where
  "dec_digits n = (if n < 10 then [digit_char n] else dec_digits (n div 10) @ [digit_char (n mod 10)])"
  by pat_completeness auto
termination
  by (relation "measure nat") auto

declare dec_digits.simps [simp del]

definition String_of_int :: "int \<Rightarrow> string" where
  "String_of_int i = (if i < 0 then CHR ''-'' # dec_digits (- i) else dec_digits i)"

text \<open>A thrown \<open>Error\<close>, with its message.\<close>

datatype exn = Exn string

definition padStart :: "nat \<Rightarrow> char \<Rightarrow> string \<Rightarrow> string" where
  "padStart w c s = replicate (w - length s) c @ s"

fun join :: "string \<Rightarrow> string list \<Rightarrow> string" where
  "join sep [] = []"
| "join sep [x] = x"
| "join sep (x # y # ys) = x @ sep @ join sep (y # ys)"

text \<open>
  The UTC calendar of \<open>Date\<close>: day number (days since 1970-01-01) to (year, month index
  0..11, day of month), and \<open>Date.UTC(year, month, day)\<close> back to a day number, with the
  overflow of \<open>month\<close> and \<open>day\<close> carried as \<open>MakeDay\<close> does.
\<close>

definition civil_from_days :: "int \<Rightarrow> int \<times> int \<times> int" where
  "civil_from_days days =
     (let z = days + 719468;
          era = z div 146097;
          doe = z - era * 146097;
          yoe = (doe - doe div 1460 + doe div 36524 - doe div 146096) div 365;
          y = yoe + era * 400;
          doy = doe - (365 * yoe + yoe div 4 - yoe div 100);
          mp = (5 * doy + 2) div 153;
          d = doy - (153 * mp + 2) div 5 + 1;
          m = (if mp < 10 then mp + 3 else mp - 9)
      in (if m \<le> 2 then y + 1 else y, m - 1, d))"

definition days_from_civil :: "int \<Rightarrow> int \<Rightarrow> int \<Rightarrow> int" where
  "days_from_civil year month day =
     (let ym = year + month div 12;
          mn = month mod 12 + 1;
          y = (if mn \<le> 2 then ym - 1 else ym);
          era = y div 400;
          yoe = y - era * 400;
          doy = (153 * (if mn > 2 then mn - 3 else mn + 9) + 2) div 5;
          doe = yoe * 365 + yoe div 4 - yoe div 100 + doy
      in era * 146097 + doe - 719468 + (day - 1))"

definition toISOString :: "int \<Rightarrow> string" where
  "toISOString t =
     (let (y, m, d) = civil_from_days (t div 86400000);
          r = t mod 86400000;
          yy = (if 0 \<le> y \<and> y \<le> 9999 then padStart 4 CHR ''0'' (String_of_int y)
                else (if y < 0 then ''-'' else ''+'') @ padStart 6 CHR ''0'' (String_of_int (abs y)))
      in yy @ ''-'' @ padStart 2 CHR ''0'' (String_of_int (m + 1)) @ ''-''
            @ padStart 2 CHR ''0'' (String_of_int d) @ ''T''
            @ padStart 2 CHR ''0'' (String_of_int (r div 3600000)) @ '':''
            @ padStart 2 CHR ''0'' (String_of_int (r mod 3600000 div 60000)) @ '':''
            @ padStart 2 CHR ''0'' (String_of_int (r mod 60000 div 1000)) @ ''.''
            @ padStart 3 CHR ''0'' (String_of_int (r mod 1000)) @ ''Z'')"

section \<open>JSON values and \<open>JSON.stringify\<close>\<close>

text \<open>
  A value of type \<open>unknown\<close> that came out of JSON: an object is the list of its own
  properties in the order \<open>Object.entries\<close> and \<open>JSON.stringify\<close> enumerate them (the
  order of insertion for keys that are not array indices). Numbers are finite and carried
  as exact rationals; their rendering by \<open>Number::toString\<close> is the parameter \<open>num\<close>.
  A character is one code unit below 256.
\<close>

datatype json = JNull | JBool bool | JNum rat | JStr string | JArr "json list"
  | JObj "(string \<times> json) list"

definition hex_digit :: "nat \<Rightarrow> char" where
  "hex_digit d = ''0123456789abcdef'' ! d"

definition quote_char :: "char \<Rightarrow> string" where
  "quote_char c =
     (if c = CHR 0x22 then [CHR 0x5C, CHR 0x22]
      else if c = CHR 0x5C then [CHR 0x5C, CHR 0x5C]
      else if c = CHR 0x08 then [CHR 0x5C, CHR ''b'']
      else if c = CHR 0x0C then [CHR 0x5C, CHR ''f'']
      else if c = CHR 0x0A then [CHR 0x5C, CHR ''n'']
      else if c = CHR 0x0D then [CHR 0x5C, CHR ''r'']
      else if c = CHR 0x09 then [CHR 0x5C, CHR ''t'']
      else if of_char c < (32::nat)
        then [CHR 0x5C, CHR ''u'', CHR ''0'', CHR ''0'',
              hex_digit (of_char c div 16), hex_digit (of_char c mod 16)]
      else [c])"

definition quote_string :: "string \<Rightarrow> string" where
  "quote_string s = [CHR 0x22] @ concat (map quote_char s) @ [CHR 0x22]"

fun JSON_stringify :: "(rat \<Rightarrow> string) \<Rightarrow> json \<Rightarrow> string" where
  "JSON_stringify num JNull = ''null''"
| "JSON_stringify num (JBool b) = (if b then ''true'' else ''false'')"
| "JSON_stringify num (JNum r) = num r"
| "JSON_stringify num (JStr s) = quote_string s"
| "JSON_stringify num (JArr xs) = ''['' @ join '','' (map (JSON_stringify num) xs) @ '']''"
| "JSON_stringify num (JObj kvs) =
     ''{'' @ join '','' (map (\<lambda>(k, v). quote_string k @ '':'' @ JSON_stringify num v) kvs) @ ''}''"

section \<open>Audit chain: \<open>security/audit-chain.ts\<close>, \<open>src/db/queries/audit.ts\<close>\<close>

text \<open>
  \<open>createAuditHash\<close>: the body is \<open>JSON.stringify\<close> of the object literal
  \<open>{previousHash, eventType, metadata, createdAtIso}\<close>, whose properties are enumerated
  in the order the literal lists them; \<open>metadata\<close> goes in as the caller built it.
  The SHA-256 hex digest (\<open>createHash("sha256").update(payload).digest("hex")\<close>) is the
  parameter \<open>H\<close>.
\<close>

definition audit_body :: "(rat \<Rightarrow> string) \<Rightarrow> string option \<Rightarrow> string \<Rightarrow> json \<Rightarrow> string \<Rightarrow> string" where
  "audit_body num previousHash eventType metadata createdAtIso =
     JSON_stringify num
       (JObj [(''previousHash'', (case previousHash of None \<Rightarrow> JNull | Some h \<Rightarrow> JStr h)),
              (''eventType'', JStr eventType),
              (''metadata'', metadata),
              (''createdAtIso'', JStr createdAtIso)])"

definition createAuditHash ::
  "(string \<Rightarrow> string) \<Rightarrow> (rat \<Rightarrow> string) \<Rightarrow> string option \<Rightarrow> string \<Rightarrow> json \<Rightarrow> string \<Rightarrow> string" where
  "createAuditHash H num previousHash eventType metadata createdAtIso =
     H (audit_body num previousHash eventType metadata createdAtIso)"

record AuditEventRecord =
  ev_actorType :: string
  ev_actorId :: string
  ev_eventType :: string
  ev_metadata :: json
  ev_correlationId :: string

record audit_row =
  ar_actorType :: string
  ar_actorId :: string
  ar_eventType :: string
  metadataJson :: json
  ar_correlationId :: string
  createdAt :: int
  hashChain :: string

text \<open>
  The table \<open>audit_events\<close> in order of insertion. \<open>ORDER BY created_at DESC LIMIT 1\<close>
  picks a row of greatest \<open>created_at\<close>; among equal timestamps the model takes the one
  inserted last.
\<close>

fun latest_event :: "audit_row list \<Rightarrow> audit_row option" where
  "latest_event [] = None"
| "latest_event (e # es) =
     (case latest_event es of
        None \<Rightarrow> Some e
      | Some l \<Rightarrow> if createdAt e \<le> createdAt l then Some l else Some e)"

definition appendAuditEvent ::
  "(string \<Rightarrow> string) \<Rightarrow> (rat \<Rightarrow> string) \<Rightarrow> audit_row list \<Rightarrow> int \<Rightarrow> AuditEventRecord
     \<Rightarrow> audit_row \<times> audit_row list" where
  "appendAuditEvent H num tbl now event =
     (let lastEvent = latest_event tbl;
          hc = createAuditHash H num (map_option hashChain lastEvent) (ev_eventType event)
                 (ev_metadata event) (toISOString now);
          row = \<lparr>ar_actorType = ev_actorType event, ar_actorId = ev_actorId event,
                 ar_eventType = ev_eventType event, metadataJson = ev_metadata event,
                 ar_correlationId = ev_correlationId event, createdAt = now, hashChain = hc\<rparr>
      in (row, tbl @ [row]))"



section \<open>Approval engine: \<open>approvals/service.ts\<close> and the approval queries\<close>

datatype RiskProfile = Cautious | Balanced | Advanced

datatype ApprovalStatus = Requested | Approved | Denied | Expired | Failed

fun status_text :: "ApprovalStatus \<Rightarrow> string" where
  "status_text Requested = ''requested''"
| "status_text Approved = ''approved''"
| "status_text Denied = ''denied''"
| "status_text Expired = ''expired''"
| "status_text Failed = ''failed''"

record tool_approval =
  ta_approvalId :: string
  ta_callbackToken :: string
  ta_sessionId :: string
  ta_toolName :: string
  ta_toolCallId :: string
  ta_inputJson :: json
  ta_telegramChatId :: string
  ta_messageThreadId :: "int option"
  ta_promptMessageId :: "int option"
  ta_riskProfile :: RiskProfile
  ta_status :: ApprovalStatus
  ta_reason :: "string option"
  ta_expiresAt :: int
  ta_decidedAt :: "int option"
  ta_decidedBy :: "string option"

text \<open>The table \<open>tool_approvals\<close>, keyed by its primary key \<open>approval_id\<close>.\<close>

type_synonym approval_table = "string \<rightharpoonup> tool_approval"

definition getToolApproval :: "approval_table \<Rightarrow> string \<Rightarrow> tool_approval option" where
  "getToolApproval tbl aid = tbl aid"

text \<open>
  \<open>updateToolApprovalDecision\<close>: \<open>UPDATE ... WHERE approval_id = ?\<close>; the reason column is
  set only for a non-empty reason. Returns the updated row, or null.
\<close>

definition updateToolApprovalDecision ::
  "approval_table \<Rightarrow> int \<Rightarrow> string \<Rightarrow> ApprovalStatus \<Rightarrow> string \<Rightarrow> string option
     \<Rightarrow> tool_approval option \<times> approval_table" where
  "updateToolApprovalDecision tbl now aid st decider reason =
     (case tbl aid of
        None \<Rightarrow> (None, tbl)
      | Some row \<Rightarrow>
          (let row' = row\<lparr>ta_status := st, ta_decidedBy := Some decider, ta_decidedAt := Some now,
                          ta_reason := (case reason of
                                          None \<Rightarrow> ta_reason row
                                        | Some r \<Rightarrow> if r = [] then ta_reason row else Some r)\<rparr>
           in (Some row', tbl(aid \<mapsto> row'))))"

text \<open>
  \<open>expirePendingApproval\<close>: \<open>UPDATE ... WHERE approval_id = ? AND status = 'requested'\<close>.
\<close>

definition expirePendingApproval ::
  "approval_table \<Rightarrow> int \<Rightarrow> string \<Rightarrow> tool_approval option \<times> approval_table" where
  "expirePendingApproval tbl now aid =
     (case tbl aid of
        None \<Rightarrow> (None, tbl)
      | Some row \<Rightarrow>
          if ta_status row = Requested
          then (let row' = row\<lparr>ta_status := Expired, ta_reason := Some ''Approval expired'',
                                ta_decidedAt := Some now, ta_decidedBy := Some ''system''\<rparr>
                in (Some row', tbl(aid \<mapsto> row')))
          else (None, tbl))"

text \<open>
  \<open>createToolApproval\<close>: an \<open>INSERT\<close>. \<open>approval_id\<close> is the primary key, so the
  database refuses a second row under an existing id; the error of the driver,
  \<open>dbError\<close>, goes to the caller as it is.
\<close>

definition createToolApproval ::
  "exn \<Rightarrow> approval_table \<Rightarrow> tool_approval \<Rightarrow> exn + (tool_approval \<times> approval_table)" where
  "createToolApproval dbError tbl record =
     (if tbl (ta_approvalId record) \<noteq> None
      then Inl dbError
      else Inr (record, tbl(ta_approvalId record \<mapsto> record)))"

text \<open>
  \<open>updateToolApprovalPromptMessage\<close>: \<open>UPDATE ... SET telegram_chat_id,
  message_thread_id, prompt_message_id WHERE approval_id = ?\<close>.
\<close>

definition updateToolApprovalPromptMessage ::
  "approval_table \<Rightarrow> string \<Rightarrow> string \<Rightarrow> int option \<Rightarrow> int
     \<Rightarrow> tool_approval option \<times> approval_table" where
  "updateToolApprovalPromptMessage tbl aid chat thread prompt =
     (case tbl aid of
        None \<Rightarrow> (None, tbl)
      | Some row \<Rightarrow>
          (let row' = row\<lparr>ta_telegramChatId := chat, ta_messageThreadId := thread,
                          ta_promptMessageId := Some prompt\<rparr>
           in (Some row', tbl(aid \<mapsto> row'))))"

record approval_db =
  approvals :: approval_table
  audit_events :: "audit_row list"

record decide_input =
  di_approvalId :: string
  di_approved :: bool
  di_decidedBy :: string
  di_correlationId :: string
  di_reason :: "string option"

datatype decide_result = DecideFailed string | DecideOk tool_approval

text \<open>
  \<open>decideApproval\<close>, with the database passed through. The function awaits
  \<open>getToolApproval\<close> and goes on with the row it has read, \<open>current\<close>; its writes
  (\<open>expirePendingApproval\<close> or \<open>updateToolApprovalDecision\<close>, then
  \<open>appendAuditEvent\<close>) are awaited queries of their own, so other operations on the
  database can run between the read and the writes (the update worker runs 20 jobs at a
  time, the approval-timeout worker 5). \<open>decideApproval_after_read\<close> is the function from
  the end of the read on: \<open>current\<close> is what the read returned and \<open>db\<close> is the
  database as the writes find it. \<open>now\<close> is the clock of the call (\<open>Date.now()\<close> and the
  \<open>new Date()\<close> of the update it sends).
\<close>

definition decideApproval_after_read ::
  "(string \<Rightarrow> string) \<Rightarrow> (rat \<Rightarrow> string) \<Rightarrow> approval_db \<Rightarrow> int \<Rightarrow> decide_input
     \<Rightarrow> tool_approval option \<Rightarrow> decide_result \<times> approval_db" where
  "decideApproval_after_read H num db now inp fetched =
     (case fetched of
        None \<Rightarrow> (DecideFailed ''Approval not found.'', db)
      | Some current \<Rightarrow>
          if ta_status current \<noteq> Requested
          then (DecideFailed (''Approval already '' @ status_text (ta_status current) @ ''.''), db)
          else if ta_expiresAt current < now
          then (DecideFailed ''Approval already expired.'',
                db\<lparr>approvals := snd (expirePendingApproval (approvals db) now (ta_approvalId current))\<rparr>)
          else
            (let st = (if di_approved inp then Approved else Denied);
                 (updated, tbl') =
                    updateToolApprovalDecision (approvals db) now (di_approvalId inp) st
                      (di_decidedBy inp) (di_reason inp);
                 (row, log') =
                    appendAuditEvent H num (audit_events db) now
                      \<lparr>ev_actorType = ''telegram_user'', ev_actorId = di_decidedBy inp,
                       ev_eventType = ''approval.decided'', ev_metadata =
                         JObj [(''approvalId'', JStr (di_approvalId inp)),
                               (''approved'', JBool (di_approved inp)),
                               (''reason'', (case di_reason inp of None \<Rightarrow> JNull | Some r \<Rightarrow> JStr r))],
                       ev_correlationId = di_correlationId inp\<rparr>
             in (DecideOk (case updated of None \<Rightarrow> current | Some u \<Rightarrow> u),
                 db\<lparr>approvals := tbl', audit_events := log'\<rparr>)))"

text \<open>
  A call of \<open>decideApproval\<close> that nothing interrupts: the writes find the database that
  the read saw.
\<close>

definition decideApproval ::
  "(string \<Rightarrow> string) \<Rightarrow> (rat \<Rightarrow> string) \<Rightarrow> approval_db \<Rightarrow> int \<Rightarrow> decide_input
     \<Rightarrow> decide_result \<times> approval_db" where
  "decideApproval H num db now inp =
     decideApproval_after_read H num db now inp
       (getToolApproval (approvals db) (di_approvalId inp))"

section \<open>Update store: \<open>src/db/queries/updates.ts\<close>\<close>

datatype ProcessedUpdateStatus = Received | Enqueued | Processed | UpdateFailed

record processed_update =
  telegramUpdateId :: string
  pu_status :: ProcessedUpdateStatus
  receivedAt :: int
  handledAt :: "int option"
  pu_error :: "string option"

text \<open>The table \<open>processed_updates\<close>, keyed by its primary key \<open>telegram_update_id\<close>.\<close>

type_synonym update_table = "string \<rightharpoonup> processed_update"

text \<open>
  \<open>markProcessedUpdateStatus\<close>: one \<open>UPDATE ... SET status, handled_at, error WHERE
  telegram_update_id = String(updateId)\<close>. The only condition of the statement is the key;
  a missing row leaves the table as it is. \<open>now\<close> is the \<open>new Date()\<close> of the call.
\<close>

definition markProcessedUpdateStatus ::
  "update_table \<Rightarrow> int \<Rightarrow> int \<Rightarrow> ProcessedUpdateStatus \<Rightarrow> string option \<Rightarrow> update_table" where
  "markProcessedUpdateStatus db now updateId st err =
     (case db (String_of_int updateId) of
        None \<Rightarrow> db
      | Some row \<Rightarrow>
          db(String_of_int updateId \<mapsto>
               row\<lparr>pu_status := st,
                    handledAt := (if st = Processed \<or> st = UpdateFailed then Some now else None),
                    pu_error := err\<rparr>))"

section \<open>Example rows\<close>

definition processed_row_42 :: processed_update where
  "processed_row_42 =
     \<lparr>telegramUpdateId = ''42'', pu_status = Processed, receivedAt = 1000,
      handledAt = Some 2000, pu_error = None\<rparr>"

definition requested_row :: tool_approval where
  "requested_row =
     \<lparr>ta_approvalId = ''apr_1'', ta_callbackToken = ''AAAAAAAAAA'', ta_sessionId = ''s1'',
      ta_toolName = ''tonSendBlockchainMessage'', ta_toolCallId = ''call_1'',
      ta_inputJson = JObj [(''amount'', JStr ''2.5'')], ta_telegramChatId = ''100'',
      ta_messageThreadId = None, ta_promptMessageId = Some 77, ta_riskProfile = Balanced,
      ta_status = Requested, ta_reason = None, ta_expiresAt = 300000,
      ta_decidedAt = None, ta_decidedBy = None\<rparr>"

definition pending_db :: approval_db where
  "pending_db = \<lparr>approvals = Map.empty(''apr_1'' \<mapsto> requested_row), audit_events = []\<rparr>"

definition expired_row :: tool_approval where
  "expired_row =
     requested_row\<lparr>ta_status := Expired, ta_reason := Some ''Approval expired'',
                   ta_decidedAt := Some 300000, ta_decidedBy := Some ''system''\<rparr>"

definition expired_db :: approval_db where
  "expired_db = \<lparr>approvals = Map.empty(''apr_1'' \<mapsto> expired_row), audit_events = []\<rparr>"

definition deny_apr_1 :: decide_input where
  "deny_apr_1 =
     \<lparr>di_approvalId = ''apr_1'', di_approved = False, di_decidedBy = ''2002'',
      di_correlationId = ''c2'', di_reason = Some ''User denied via Telegram callback.''\<rparr>"

definition approve_apr_1 :: decide_input where
  "approve_apr_1 =
     \<lparr>di_approvalId = ''apr_1'', di_approved = True, di_decidedBy = ''2001'',
      di_correlationId = ''c1'', di_reason = None\<rparr>"


section \<open>Callback token: \<open>createApprovalCallbackToken\<close> in \<open>approvals/service.ts\<close>\<close>

text \<open>
  \<open>Buffer.toString("base64url")\<close>: three bytes give four characters of the URL-safe
  alphabet, a rest of one byte gives two characters, a rest of two bytes three; there is
  no padding.
\<close>

definition base64url_alphabet :: string where
  "base64url_alphabet = ''ABCDEFGHIJKLMNOPQRSTUVWXYZabcdefghijklmnopqrstuvwxyz0123456789-_''"

definition b64 :: "nat \<Rightarrow> char" where
  "b64 i = base64url_alphabet ! i"

fun base64url :: "8 word list \<Rightarrow> string" where
  "base64url (a # b # c # rest) =
     [b64 (unat a div 4),
      b64 (unat a mod 4 * 16 + unat b div 16),
      b64 (unat b mod 16 * 4 + unat c div 64),
      b64 (unat c mod 64)] @ base64url rest"
| "base64url [a, b] =
     [b64 (unat a div 4), b64 (unat a mod 4 * 16 + unat b div 16), b64 (unat b mod 16 * 4)]"
| "base64url [a] = [b64 (unat a div 4), b64 (unat a mod 4 * 16)]"
| "base64url [] = []"

text \<open>The characters that \<open>replace(/[^a-zA-Z0-9_-]/g, "")\<close> keeps.\<close>

definition is_token_char :: "char \<Rightarrow> bool" where
  "is_token_char c =
     (let n = (of_char c :: nat)
      in (97 \<le> n \<and> n \<le> 122) \<or> (65 \<le> n \<and> n \<le> 90) \<or> (48 \<le> n \<and> n \<le> 57)
         \<or> c = CHR ''_'' \<or> c = CHR ''-'')"

text \<open>
  \<open>createApprovalCallbackToken\<close>; \<open>rnd\<close> is what \<open>randomBytes(7)\<close> returned, seven bytes.
\<close>

definition createApprovalCallbackToken :: "8 word list \<Rightarrow> string" where
  "createApprovalCallbackToken rnd = take 14 (filter is_token_char (base64url rnd))"

section \<open>Agent turn executor: \<open>executeWithProviderFallback\<close> in \<open>src/agent/ton-agent.ts\<close>\<close>

datatype chunk = TextDelta string | OtherChunk

text \<open>
  What a provider does when its stream is run: the chunks \<open>fullStream\<close> delivers, and then
  either the failure that ends the attempt (thrown by \<open>agent.stream\<close>, by the iteration
  or by the final \<open>await\<close>) or the final text and response messages.
\<close>

record 'm stream_run =
  chunks :: "chunk list"
  outcome :: "exn + (string \<times> 'm list)"

datatype AgentModelProvider = Openrouter | AiGateway

record 'm AgentModelAttempt =
  provider :: AgentModelProvider
  modelId :: string
  model :: "'m stream_run"

datatype ToolChoice = Auto | Required

record 'm AgentProviderExecutionResult =
  res_provider :: AgentModelProvider
  res_modelId :: string
  res_toolChoice :: ToolChoice
  responseText :: string
  responseMessages :: "'m list"
  usedFallback :: bool
  primaryErrorMessage :: "string option"

text \<open>
  What the executor does that can be seen from outside: the attempts whose stream it
  started, by index, and the deltas it handed to \<open>onTextDelta\<close>.
\<close>

record exec_trace =
  started :: "nat list"
  emitted :: "string list"

definition is_js_space :: "char \<Rightarrow> bool" where
  "is_js_space c = (of_char c \<in> {9, 10, 11, 12, 13, 32, 160 :: nat})"

definition js_trim :: "string \<Rightarrow> string" where
  "js_trim s = rev (dropWhile is_js_space (rev (dropWhile is_js_space s)))"

text \<open>
  The \<open>for await\<close> loop over the chunks: the accumulator is
  \<open>(emittedAnyDelta, streamedText, deltas handed to emitTextDelta)\<close>.
\<close>

fun consume_chunks :: "chunk list \<Rightarrow> bool \<times> string \<times> string list \<Rightarrow> bool \<times> string \<times> string list" where
  "consume_chunks [] acc = acc"
| "consume_chunks (OtherChunk # cs) acc = consume_chunks cs acc"
| "consume_chunks (TextDelta t # cs) (emittedAnyDelta, streamedText, out) =
     (if t = [] then consume_chunks cs (emittedAnyDelta, streamedText, out)
      else consume_chunks cs (True, streamedText @ t, out @ [t]))"

definition exn_message :: "exn \<Rightarrow> string" where
  "exn_message e = (case e of Exn m \<Rightarrow> m)"

text \<open>
  The loop over the attempts, from \<open>index\<close> on. \<open>toolChoice\<close> is what
  \<open>resolveAgentToolChoice(request)\<close> returned, \<open>hasCallback\<close> says whether
  \<open>callbacks.onTextDelta\<close> is there.
\<close>

fun run_attempts ::
  "ToolChoice \<Rightarrow> bool \<Rightarrow> bool \<Rightarrow> nat \<Rightarrow> exn option \<Rightarrow> 'm AgentModelAttempt list \<Rightarrow> exec_trace
     \<Rightarrow> (exn + 'm AgentProviderExecutionResult) \<times> exec_trace" where
  "run_attempts toolChoice hasCallback hasFallbackAttempt index primaryError [] tr =
     (case primaryError of
        Some e \<Rightarrow> (Inl e, tr)
      | None \<Rightarrow> (Inl (Exn ''No model provider attempts were available.''), tr))"
| "run_attempts toolChoice hasCallback hasFallbackAttempt index primaryError (attempt # rest) tr =
     (case consume_chunks (chunks (model attempt)) (False, [], []) of
        (emittedAnyDelta, streamedText, out) \<Rightarrow>
          (let tr' = tr\<lparr>started := started tr @ [index],
                         emitted := emitted tr @ (if hasCallback then out else [])\<rparr>
           in case outcome (model attempt) of
                Inr (streamText, msgs) \<Rightarrow>
                  (Inr \<lparr>res_provider = provider attempt, res_modelId = modelId attempt,
                        res_toolChoice = toolChoice,
                        responseText = (if js_trim streamText \<noteq> [] then streamText else streamedText),
                        responseMessages = msgs, usedFallback = (index > 0),
                        primaryErrorMessage = map_option exn_message primaryError\<rparr>, tr')
              | Inl err \<Rightarrow>
                  if index = 0
                  then (if hasFallbackAttempt
                        then (if emittedAnyDelta then (Inl err, tr')
                              else run_attempts toolChoice hasCallback hasFallbackAttempt (index + 1) (Some err) rest tr')
                        else (Inl err, tr'))
                  else (Inl err, tr')))"

definition executeWithProviderFallback ::
  "ToolChoice \<Rightarrow> bool \<Rightarrow> 'm AgentModelAttempt list \<Rightarrow> (exn + 'm AgentProviderExecutionResult) \<times> exec_trace" where
  "executeWithProviderFallback toolChoice hasCallback attempts =
     run_attempts toolChoice hasCallback (length attempts > 1) 0 None attempts \<lparr>started = [], emitted = []\<rparr>"

text \<open>The text deltas of a stream that count as emitted: the non-empty ones.\<close>

definition emitted_deltas :: "chunk list \<Rightarrow> string list" where
  "emitted_deltas cs = concat (map (\<lambda>c. case c of TextDelta t \<Rightarrow> (if t = [] then [] else [t]) | OtherChunk \<Rightarrow> []) cs)"

definition failing_primary :: "chunk list \<Rightarrow> unit AgentModelAttempt" where
  "failing_primary cs =
     \<lparr>provider = Openrouter, modelId = ''m1'',
      model = \<lparr>chunks = cs, outcome = Inl (Exn ''stream failed'')\<rparr>\<rparr>"

definition good_fallback :: "unit AgentModelAttempt" where
  "good_fallback =
     \<lparr>provider = AiGateway, modelId = ''m2'',
      model = \<lparr>chunks = [TextDelta ''ok''], outcome = Inr (''ok'', [])\<rparr>\<rparr>"

section \<open>Rate limiter: \<open>security/rate-limit.ts\<close>\<close>

datatype RateLimitTier = Free | Trusted

datatype RateLimitReason =
  Allowed | ChatFlood | UserBurst | UserMinute | UserDaily | RateLimitStorageError

text \<open>The reasons are string literals.\<close>

fun reason_text :: "RateLimitReason \<Rightarrow> string" where
  "reason_text Allowed = ''allowed''"
| "reason_text ChatFlood = ''chat_flood''"
| "reason_text UserBurst = ''user_burst''"
| "reason_text UserMinute = ''user_minute''"
| "reason_text UserDaily = ''user_daily''"
| "reason_text RateLimitStorageError = ''rate_limit_storage_error''"

record RateLimitDecision =
  rl_allowed :: bool
  rl_reason :: RateLimitReason
  retryAfterSeconds :: int
  rl_tier :: RateLimitTier
  dailyUsed :: "int option"
  dailyLimit :: "int option"
  resetsAtUtc :: "int option"

record RateLimitConfig =
  burstWindowSeconds :: int
  minuteWindowSeconds :: int
  chatMinuteMax :: int
  noticeCooldownSeconds :: int
  trustedUserIds :: "string list"
  freeBurstMax :: int
  freeMinuteMax :: int
  freeDailyMax :: int
  trustedMultiplier :: int

record CounterResult =
  cr_count :: int
  cr_ttlSeconds :: int

record UtcDailyWindow =
  dayKey :: string
  counterTtlSeconds :: int
  secondsUntilReset :: int
  w_resetsAtUtc :: int

record TierLimits =
  burstMax :: int
  minuteMax :: int
  dailyMax :: int

definition KEY_PREFIX :: string where
  "KEY_PREFIX = ''rl:v1''"

definition COUNTER_TTL_GRACE_SECONDS :: int where
  "COUNTER_TTL_GRACE_SECONDS = 5"

definition DAILY_COUNTER_TTL_GRACE_SECONDS :: int where
  "DAILY_COUNTER_TTL_GRACE_SECONDS = 60"

text \<open>
  The configured numbers are integers (\<open>integerFromEnv\<close>), so \<open>Math.trunc\<close> is the
  identity on them and \<open>Number.isFinite\<close> holds.
\<close>

definition asPositiveInt :: "int \<Rightarrow> int" where
  "asPositiveInt v = max 1 v"

text \<open>
  An element of the reply is \<open>Some n\<close> when \<open>Number(value)\<close> is the finite integer \<open>n\<close>,
  and \<open>None\<close> when it is not finite.
\<close>

definition parseLuaInt :: "int option \<Rightarrow> int \<Rightarrow> int" where
  "parseLuaInt v fallback = (case v of None \<Rightarrow> fallback | Some n \<Rightarrow> n)"

definition getTierForUser :: "string \<Rightarrow> RateLimitConfig \<Rightarrow> RateLimitTier" where
  "getTierForUser telegramUserId config =
     (if telegramUserId \<in> set (trustedUserIds config) then Trusted else Free)"

definition getTierLimits :: "RateLimitTier \<Rightarrow> RateLimitConfig \<Rightarrow> TierLimits" where
  "getTierLimits t config =
     (if t = Trusted
      then \<lparr>burstMax = freeBurstMax config * trustedMultiplier config,
            minuteMax = freeMinuteMax config * trustedMultiplier config,
            dailyMax = freeDailyMax config * trustedMultiplier config\<rparr>
      else \<lparr>burstMax = freeBurstMax config, minuteMax = freeMinuteMax config,
            dailyMax = freeDailyMax config\<rparr>)"

text \<open>
  \<open>Math.floor(Date.now() / 1000 / windowSeconds)\<close>, with the division taken exactly;
  the window lengths are positive integers.
\<close>

definition getWindowBucket :: "int \<Rightarrow> int \<Rightarrow> int" where
  "getWindowBucket now windowSeconds = now div (1000 * windowSeconds)"

definition getUtcDailyWindow :: "int \<Rightarrow> UtcDailyWindow" where
  "getUtcDailyWindow now =
     (let (year, month, day) = civil_from_days (now div 86400000);
          dk = String_of_int year @ padStart 2 CHR ''0'' (String_of_int (month + 1))
                 @ padStart 2 CHR ''0'' (String_of_int day);
          nextMidnight = days_from_civil year month (day + 1) * 86400000;
          untilReset = max 1 (- ((now - nextMidnight) div 1000))
      in \<lparr>dayKey = dk,
          counterTtlSeconds = untilReset + DAILY_COUNTER_TTL_GRACE_SECONDS,
          secondsUntilReset = untilReset,
          w_resetsAtUtc = nextMidnight\<rparr>)"

subsection \<open>The key-value store\<close>

datatype redis_reply = ReplyArray "int option list" | ReplyOther

text \<open>
  \<open>redis.eval(INCR_WITH_TTL_LUA, 1, key, String(ttl))\<close> as seen by the limiter: a store
  state, the key and the TTL go in; a reply or a raised error comes out, with the next
  store state. The limiter is written over any such store.
\<close>

type_synonym 's redis_eval = "'s \<Rightarrow> string \<Rightarrow> int \<Rightarrow> (exn + redis_reply) \<times> 's"

text \<open>
  The store the script is written for: per key a value and an optional expiry time
  (milliseconds), the server's clock, and the keys of the script calls served so far
  (kept to tell the order of the calls). A key whose expiry time has passed is gone.
  Counter values stay far below \<open>2^63\<close>, where \<open>INCR\<close> would fail.
\<close>

record redis_store =
  entries :: "string \<rightharpoonup> int \<times> int option"
  server_ms :: int
  eval_keys :: "string list"

definition redis_live :: "redis_store \<Rightarrow> string \<Rightarrow> (int \<times> int option) option" where
  "redis_live r key =
     (case entries r key of
        None \<Rightarrow> None
      | Some (v, None) \<Rightarrow> Some (v, None)
      | Some (v, Some t) \<Rightarrow> if server_ms r > t then None else Some (v, Some t))"

text \<open>
  \<open>INCR_WITH_TTL_LUA\<close>: \<open>INCR key\<close>; when the value is 1, \<open>EXPIRE key ttl\<close> (which
  deletes the key for a TTL that is not positive); \<open>TTL key\<close> is -2 for no key, -1 for no
  expiry and the remaining seconds, rounded, otherwise; a negative remainder is replaced
  by the TTL argument. The reply is \<open>{value, remaining}\<close>.
\<close>

definition INCR_WITH_TTL_LUA :: "redis_store redis_eval" where
  "INCR_WITH_TTL_LUA r key ttl =
     (let live = redis_live r key;
          val = (case live of None \<Rightarrow> 1 | Some (v, e) \<Rightarrow> v + 1);
          exp0 = (case live of None \<Rightarrow> None | Some (v, e) \<Rightarrow> e);
          deleted = (val = 1 \<and> ttl \<le> 0);
          exp1 = (if val = 1 then Some (server_ms r + ttl * 1000) else exp0);
          remaining0 = (if deleted then - 2
                        else case exp1 of
                               None \<Rightarrow> - 1
                             | Some t \<Rightarrow> (max 0 (t - server_ms r) + 500) div 1000);
          remaining = (if remaining0 < 0 then ttl else remaining0)
      in (Inr (ReplyArray [Some val, Some remaining]),
          r\<lparr>entries := (if deleted then (entries r)(key := None)
                          else (entries r)(key \<mapsto> (val, exp1))),
             eval_keys := eval_keys r @ [key]\<rparr>))"

subsection \<open>The limiter\<close>

definition incrementCounter ::
  "'s redis_eval \<Rightarrow> 's \<Rightarrow> string \<Rightarrow> int \<Rightarrow> (exn + CounterResult) \<times> 's" where
  "incrementCounter ev s key ttlSeconds =
     (let normalizedTtl = asPositiveInt ttlSeconds
      in case ev s key normalizedTtl of
           (Inl e, s') \<Rightarrow> (Inl e, s')
         | (Inr (ReplyArray (a # b # others)), s') \<Rightarrow>
             (Inr \<lparr>cr_count = max 0 (parseLuaInt a 0),
                   cr_ttlSeconds = max 1 (parseLuaInt b normalizedTtl)\<rparr>, s')
         | (Inr other, s') \<Rightarrow>
             (Inl (Exn ''Rate limit counter script returned an invalid response.''), s'))"

definition allowedDecision ::
  "RateLimitTier \<Rightarrow> (int \<times> int \<times> int) option \<Rightarrow> RateLimitDecision" where
  "allowedDecision t extra =
     \<lparr>rl_allowed = True, rl_reason = Allowed, retryAfterSeconds = 0, rl_tier = t,
      dailyUsed = map_option fst extra, dailyLimit = map_option (fst \<circ> snd) extra,
      resetsAtUtc = map_option (snd \<circ> snd) extra\<rparr>"

definition deniedDecision ::
  "RateLimitTier \<Rightarrow> RateLimitReason \<Rightarrow> int \<Rightarrow> (int \<times> int \<times> int) option \<Rightarrow> RateLimitDecision" where
  "deniedDecision t why retryAfter extra =
     \<lparr>rl_allowed = False, rl_reason = why, retryAfterSeconds = max 1 retryAfter, rl_tier = t,
      dailyUsed = map_option fst extra, dailyLimit = map_option (fst \<circ> snd) extra,
      resetsAtUtc = map_option (snd \<circ> snd) extra\<rparr>"

definition failOpenDecision :: "RateLimitTier \<Rightarrow> RateLimitDecision" where
  "failOpenDecision t =
     \<lparr>rl_allowed = True, rl_reason = RateLimitStorageError, retryAfterSeconds = 0, rl_tier = t,
      dailyUsed = None, dailyLimit = None, resetsAtUtc = None\<rparr>"

definition chat_minute_key :: "RateLimitConfig \<Rightarrow> int \<Rightarrow> string \<Rightarrow> string" where
  "chat_minute_key config now telegramChatId =
     KEY_PREFIX @ '':chat:'' @ telegramChatId @ '':m:''
       @ String_of_int (getWindowBucket now (minuteWindowSeconds config))"

definition user_burst_key :: "RateLimitConfig \<Rightarrow> int \<Rightarrow> string \<Rightarrow> string" where
  "user_burst_key config now telegramUserId =
     KEY_PREFIX @ '':user:'' @ telegramUserId @ '':b:''
       @ String_of_int (getWindowBucket now (burstWindowSeconds config))"

definition user_minute_key :: "RateLimitConfig \<Rightarrow> int \<Rightarrow> string \<Rightarrow> string" where
  "user_minute_key config now telegramUserId =
     KEY_PREFIX @ '':user:'' @ telegramUserId @ '':m:''
       @ String_of_int (getWindowBucket now (minuteWindowSeconds config))"

definition user_daily_key :: "int \<Rightarrow> string \<Rightarrow> string" where
  "user_daily_key now telegramUserId =
     KEY_PREFIX @ '':user:'' @ telegramUserId @ '':d:'' @ dayKey (getUtcDailyWindow now)"

text \<open>The body of the \<open>try\<close> block of \<open>checkChatSpamLimit\<close>.\<close>

definition checkChatSpamLimit_try ::
  "'s redis_eval \<Rightarrow> RateLimitConfig \<Rightarrow> int \<Rightarrow> 's \<Rightarrow> string \<Rightarrow> string
     \<Rightarrow> (exn + RateLimitDecision) \<times> 's" where
  "checkChatSpamLimit_try ev config now s telegramChatId telegramUserId =
     (let t = getTierForUser telegramUserId config
      in case incrementCounter ev s (chat_minute_key config now telegramChatId)
                (minuteWindowSeconds config + COUNTER_TTL_GRACE_SECONDS) of
           (Inl e, s') \<Rightarrow> (Inl e, s')
         | (Inr counter, s') \<Rightarrow>
             if cr_count counter > chatMinuteMax config
             then (Inr (deniedDecision t ChatFlood (cr_ttlSeconds counter) None), s')
             else (Inr (allowedDecision t None), s'))"

definition checkChatSpamLimit ::
  "'s redis_eval \<Rightarrow> RateLimitConfig \<Rightarrow> int \<Rightarrow> 's \<Rightarrow> string \<Rightarrow> string
     \<Rightarrow> RateLimitDecision \<times> 's" where
  "checkChatSpamLimit ev config now s telegramChatId telegramUserId =
     (case checkChatSpamLimit_try ev config now s telegramChatId telegramUserId of
        (Inr decision, s') \<Rightarrow> (decision, s')
      | (Inl e, s') \<Rightarrow> (failOpenDecision (getTierForUser telegramUserId config), s'))"

text \<open>
  The body of the \<open>try\<close> block of \<open>checkUserTurnQuota\<close>. The clock readings of one
  call (\<open>Date.now()\<close> for the two buckets, \<open>new Date()\<close> for the day) are taken to be
  the same instant \<open>now\<close>.
\<close>

definition checkUserTurnQuota_try ::
  "'s redis_eval \<Rightarrow> RateLimitConfig \<Rightarrow> int \<Rightarrow> 's \<Rightarrow> string \<Rightarrow> (exn + RateLimitDecision) \<times> 's" where
  "checkUserTurnQuota_try ev config now s telegramUserId =
     (let t = getTierForUser telegramUserId config;
          limits = getTierLimits t config
      in case incrementCounter ev s (user_burst_key config now telegramUserId)
                (burstWindowSeconds config + COUNTER_TTL_GRACE_SECONDS) of
           (Inl e, s1) \<Rightarrow> (Inl e, s1)
         | (Inr burstCounter, s1) \<Rightarrow>
             if cr_count burstCounter > burstMax limits
             then (Inr (deniedDecision t UserBurst (cr_ttlSeconds burstCounter) None), s1)
             else
               (case incrementCounter ev s1 (user_minute_key config now telegramUserId)
                       (minuteWindowSeconds config + COUNTER_TTL_GRACE_SECONDS) of
                  (Inl e, s2) \<Rightarrow> (Inl e, s2)
                | (Inr minuteCounter, s2) \<Rightarrow>
                    if cr_count minuteCounter > minuteMax limits
                    then (Inr (deniedDecision t UserMinute (cr_ttlSeconds minuteCounter) None), s2)
                    else
                      (let dailyWindow = getUtcDailyWindow now
                       in case incrementCounter ev s2 (user_daily_key now telegramUserId)
                                 (counterTtlSeconds dailyWindow) of
                            (Inl e, s3) \<Rightarrow> (Inl e, s3)
                          | (Inr dailyCounter, s3) \<Rightarrow>
                              if cr_count dailyCounter > dailyMax limits
                              then (Inr (deniedDecision t UserDaily (secondsUntilReset dailyWindow)
                                           (Some (cr_count dailyCounter, dailyMax limits,
                                                  w_resetsAtUtc dailyWindow))), s3)
                              else (Inr (allowedDecision t
                                           (Some (cr_count dailyCounter, dailyMax limits,
                                                  w_resetsAtUtc dailyWindow))), s3))))"

definition checkUserTurnQuota ::
  "'s redis_eval \<Rightarrow> RateLimitConfig \<Rightarrow> int \<Rightarrow> 's \<Rightarrow> string \<Rightarrow> RateLimitDecision \<times> 's" where
  "checkUserTurnQuota ev config now s telegramUserId =
     (case checkUserTurnQuota_try ev config now s telegramUserId of
        (Inr decision, s') \<Rightarrow> (decision, s')
      | (Inl e, s') \<Rightarrow> (failOpenDecision (getTierForUser telegramUserId config), s'))"

text \<open>A store that is down: every script call raises.\<close>

definition failing_eval :: "unit redis_eval" where
  "failing_eval s key ttl = (Inl (Exn ''redis eval failed''), s)"

text \<open>The count a key will show after one more increment.\<close>

definition next_count :: "redis_store \<Rightarrow> string \<Rightarrow> int" where
  "next_count r key = (case redis_live r key of None \<Rightarrow> 1 | Some (v, e) \<Rightarrow> max 0 (v + 1))"

definition default_config :: RateLimitConfig where
  "default_config =
     \<lparr>burstWindowSeconds = 3, minuteWindowSeconds = 60, chatMinuteMax = 200,
      noticeCooldownSeconds = 20, trustedUserIds = [], freeBurstMax = 3, freeMinuteMax = 10,
      freeDailyMax = 300, trustedMultiplier = 5\<rparr>"

definition empty_store :: "int \<Rightarrow> redis_store" where
  "empty_store now = \<lparr>entries = Map.empty, server_ms = now, eval_keys = []\<rparr>"


fun user_requests ::
  "nat \<Rightarrow> RateLimitConfig \<Rightarrow> int \<Rightarrow> redis_store \<Rightarrow> string
     \<Rightarrow> RateLimitDecision list \<times> redis_store" where
  "user_requests 0 config now r user = ([], r)"
| "user_requests (Suc n) config now r user =
     (case checkUserTurnQuota INCR_WITH_TTL_LUA config now r user of
        (d, r') \<Rightarrow> (case user_requests n config now r' user of (ds, r'') \<Rightarrow> (d # ds, r'')))"

text \<open>The store after one more script call on a key, and the value a live key holds.\<close>

definition after_incr :: "redis_store \<Rightarrow> string \<Rightarrow> int \<Rightarrow> redis_store" where
  "after_incr r key ttl = snd (INCR_WITH_TTL_LUA r key ttl)"

definition live_value :: "redis_store \<Rightarrow> string \<Rightarrow> int option" where
  "live_value r key = map_option fst (redis_live r key)"

definition user_limits :: "RateLimitConfig \<Rightarrow> string \<Rightarrow> TierLimits" where
  "user_limits config telegramUserId = getTierLimits (getTierForUser telegramUserId config) config"

text \<open>The store after the burst, the minute and the daily increment of one quota check.\<close>

definition after_burst :: "RateLimitConfig \<Rightarrow> int \<Rightarrow> string \<Rightarrow> redis_store \<Rightarrow> redis_store" where
  "after_burst config now u r =
     after_incr r (user_burst_key config now u)
       (asPositiveInt (burstWindowSeconds config + COUNTER_TTL_GRACE_SECONDS))"

definition after_minute :: "RateLimitConfig \<Rightarrow> int \<Rightarrow> string \<Rightarrow> redis_store \<Rightarrow> redis_store" where
  "after_minute config now u r =
     after_incr (after_burst config now u r) (user_minute_key config now u)
       (asPositiveInt (minuteWindowSeconds config + COUNTER_TTL_GRACE_SECONDS))"

definition after_daily :: "RateLimitConfig \<Rightarrow> int \<Rightarrow> string \<Rightarrow> redis_store \<Rightarrow> redis_store" where
  "after_daily config now u r =
     after_incr (after_minute config now u r) (user_daily_key now u)
       (asPositiveInt (counterTtlSeconds (getUtcDailyWindow now)))"

text \<open>A store that serves its first script call and raises on every later one.\<close>

definition flaky_eval :: "redis_store redis_eval" where
  "flaky_eval r key ttl =
     (if eval_keys r = [] then INCR_WITH_TTL_LUA r key ttl
      else (Inl (Exn ''redis eval failed''), r))"





definition tight_daily_config :: RateLimitConfig where
  "tight_daily_config = default_config\<lparr>freeDailyMax := 1\<rparr>"

definition noon :: int where
  "noon = 1771761600000"


definition store_after_three_turns :: redis_store where
  "store_after_three_turns = snd (user_requests 3 default_config noon (empty_store noon) ''2001'')"

definition store_after_one_turn :: redis_store where
  "store_after_one_turn = snd (user_requests 1 tight_daily_config noon (empty_store noon) ''2001'')"

section \<open>Response policy: \<open>agent/response-policy.ts\<close>\<close>

text \<open>
  Regular expressions of the module, on strings of code units below 256. \<open>\s\<close> is the
  white space that \<open>trim\<close> removes; \<open>\b\<close> is a change between a word character
  (\<open>[A-Za-z0-9_]\<close>) and a non-word character or an end of the string; the flag \<open>i\<close>
  folds the ASCII letters, the only letters the patterns contain.
\<close>

definition APPROVAL_PENDING_SUFFIX :: string where
  "APPROVAL_PENDING_SUFFIX =
     [CHR 0x0A, CHR 0x0A]
       @ ''Approval pending for critical operation. Use the approval buttons in chat.''"

definition NEXT_APPROVAL_PENDING_SUFFIX :: string where
  "NEXT_APPROVAL_PENDING_SUFFIX =
     [CHR 0x0A, CHR 0x0A]
       @ ''Another protected action is pending approval. Use the approval buttons in chat.''"

definition PLAIN_TEXT_APPROVAL_PATTERNS :: "string list" where
  "PLAIN_TEXT_APPROVAL_PATTERNS =
     [''do you approve'', ''need your explicit approval'', ''approval required'',
      ''approve this transaction'', ''pending your approval'']"

definition TRIVIAL_COMPLETION_PATTERNS :: "string list" where
  "TRIVIAL_COMPLETION_PATTERNS =
     [''done'', ''completed'', ''complete'', ''all set'', ''finished'', ''task done'',
      ''action done'']"

definition lower_ascii :: "char \<Rightarrow> char" where
  "lower_ascii c =
     (if 65 \<le> (of_char c :: nat) \<and> (of_char c :: nat) \<le> 90
      then char_of ((of_char c :: nat) + 32) else c)"

definition is_word_char :: "char \<Rightarrow> bool" where
  "is_word_char c =
     (let n = (of_char c :: nat)
      in (97 \<le> n \<and> n \<le> 122) \<or> (65 \<le> n \<and> n \<le> 90) \<or> (48 \<le> n \<and> n \<le> 57) \<or> n = 95)"

definition word_at :: "string \<Rightarrow> int \<Rightarrow> bool" where
  "word_at s i = (0 \<le> i \<and> i < int (length s) \<and> is_word_char (s ! nat i))"

definition word_boundary :: "string \<Rightarrow> nat \<Rightarrow> bool" where
  "word_boundary s i = (word_at s (int i - 1) \<noteq> word_at s (int i))"

text \<open>\<open>/\bpat\b/i\<close> matches at position \<open>i\<close>; the pattern is in lower case.\<close>

definition matches_word_at :: "string \<Rightarrow> string \<Rightarrow> nat \<Rightarrow> bool" where
  "matches_word_at pat s i =
     (i + length pat \<le> length s
      \<and> map lower_ascii (take (length pat) (drop i s)) = pat
      \<and> word_boundary s i \<and> word_boundary s (i + length pat))"

definition test_word_pattern :: "string \<Rightarrow> string \<Rightarrow> bool" where
  "test_word_pattern pat s = list_ex (matches_word_at pat s) [0..<Suc (length s)]"

text \<open>\<open>/^word[.!]*$/i\<close>.\<close>

definition test_trivial_pattern :: "string \<Rightarrow> string \<Rightarrow> bool" where
  "test_trivial_pattern word s =
     (length word \<le> length s
      \<and> map lower_ascii (take (length word) s) = word
      \<and> list_all (\<lambda>c. c = CHR ''.'' \<or> c = CHR ''!'') (drop (length word) s))"

text \<open>\<open>replace(/\s+/g, " ")\<close>: every maximal run of white space becomes one space.\<close>

function collapse_ws :: "string \<Rightarrow> string" where
  "collapse_ws [] = []"
| "collapse_ws (c # cs) =
     (if is_js_space c then CHR '' '' # collapse_ws (dropWhile is_js_space cs)
      else c # collapse_ws cs)"
  by pat_completeness auto
termination
  by (relation "measure length") (auto simp: le_imp_less_Suc length_dropWhile_le)

record ToolResultPart =
  tr_toolName :: string
  tr_toolCallId :: string
  tr_output :: json

record ResolvedTurnResponse =
  rt_text :: string
  forcedApprovedStatus :: bool

record turn_input =
  rawText :: "string option"
  userRequestText :: "string option"
  approvalsCount :: int
  approvalWasGranted :: bool
  toolResults :: "ToolResultPart list"

definition asNonEmptyString :: "json option \<Rightarrow> string option" where
  "asNonEmptyString v =
     (case v of Some (JStr s) \<Rightarrow> if js_trim s \<noteq> [] then Some s else None | _ \<Rightarrow> None)"

definition hasPlainTextApprovalRequest :: "string \<Rightarrow> bool" where
  "hasPlainTextApprovalRequest t = list_ex (\<lambda>pat. test_word_pattern pat t) PLAIN_TEXT_APPROVAL_PATTERNS"

text \<open>
  \<open>extractJsonOutputValue\<close>: the members of \<open>output.value\<close> when \<open>output\<close> is an object
  with \<open>type === "json"\<close> and \<open>value\<close> is an object; an array passes \<open>isRecord\<close> too and
  has no member named \<open>destination\<close> or \<open>hash\<close>.
\<close>

definition extractJsonOutputValue :: "json \<Rightarrow> (string \<times> json) list option" where
  "extractJsonOutputValue out =
     (case out of
        JObj kvs \<Rightarrow>
          (if map_of kvs ''type'' \<noteq> Some (JStr ''json'') then None
           else case map_of kvs ''value'' of
                  Some (JObj members) \<Rightarrow> Some members
                | Some (JArr items) \<Rightarrow> Some []
                | _ \<Rightarrow> None)
      | _ \<Rightarrow> None)"

definition summarizeToolResult :: "ToolResultPart \<Rightarrow> string" where
  "summarizeToolResult part =
     (case extractJsonOutputValue (tr_output part) of
        None \<Rightarrow> ''Executed '' @ tr_toolName part @ '' (call '' @ tr_toolCallId part @ '').''
      | Some jsonValue \<Rightarrow>
          (let destination = asNonEmptyString (map_of jsonValue ''destination'');
               hash = asNonEmptyString (map_of jsonValue ''hash'');
               details = (case destination of None \<Rightarrow> [] | Some d \<Rightarrow> [''destination '' @ d])
                          @ (case hash of None \<Rightarrow> [] | Some h \<Rightarrow> [''hash '' @ h])
           in if details = []
              then ''Executed '' @ tr_toolName part @ '' (call '' @ tr_toolCallId part @ '').''
              else ''Executed '' @ tr_toolName part @ '' ('' @ join '', '' details @ '').''))"

definition buildApprovedExecutionStatusText :: "ToolResultPart list \<Rightarrow> string" where
  "buildApprovedExecutionStatusText results =
     (if results = [] then ''Approval received. Protected action executed.''
      else join [CHR 0x0A]
             (''Approval received. Protected action executed with the following result:''
                # map (\<lambda>part. ''- '' @ summarizeToolResult part) results))"

text \<open>The local values of \<open>resolveTurnResponseText\<close>.\<close>

definition turn_text :: "turn_input \<Rightarrow> string" where
  "turn_text inp = (case rawText inp of None \<Rightarrow> [] | Some t \<Rightarrow> js_trim t)"

definition hasTrivialCompletion :: "turn_input \<Rightarrow> bool" where
  "hasTrivialCompletion inp =
     (let normalizedText = js_trim (collapse_ws (turn_text inp))
      in length normalizedText > 0 \<and> length normalizedText \<le> 48
         \<and> list_ex (\<lambda>pat. test_trivial_pattern pat normalizedText) TRIVIAL_COMPLETION_PATTERNS)"

definition requestTopic :: "turn_input \<Rightarrow> string option" where
  "requestTopic inp =
     (let normalizedRequestText =
            (case userRequestText inp of None \<Rightarrow> [] | Some t \<Rightarrow> js_trim (collapse_ws t))
      in if length normalizedRequestText > 0
         then Some (if length normalizedRequestText > 96
                    then take 93 normalizedRequestText @ ''...''
                    else normalizedRequestText)
         else None)"

definition shouldForceApprovedStatus :: "turn_input \<Rightarrow> bool" where
  "shouldForceApprovedStatus inp =
     (approvalWasGranted inp
      \<and> (length (turn_text inp) = 0 \<or> hasPlainTextApprovalRequest (turn_text inp)
         \<or> hasTrivialCompletion inp))"

definition buildContextAwareCompletionText :: "turn_input \<Rightarrow> string" where
  "buildContextAwareCompletionText inp =
     (if length (toolResults inp) > 0
      then join [CHR 0x0A]
             ((case requestTopic inp of
                 Some topic \<Rightarrow> ''Completed your request about '' @ [CHR 0x22] @ topic @ [CHR 0x22]
                                 @ '' with these results:''
               | None \<Rightarrow> ''Completed your request with these results:'')
                # map (\<lambda>part. ''- '' @ summarizeToolResult part) (toolResults inp))
      else case requestTopic inp of
             Some topic \<Rightarrow>
               ''Completed your request about '' @ [CHR 0x22] @ topic @ [CHR 0x22]
                 @ ''. I can provide a deeper breakdown or verification steps if you want.''
           | None \<Rightarrow>
               ''Completed the request. Ask for details, exact values, or next steps if you want a deeper response.'')"

definition resolveTurnResponseText :: "turn_input \<Rightarrow> ResolvedTurnResponse" where
  "resolveTurnResponseText inp =
     (let hasPendingApprovals = (approvalsCount inp > 0)
      in if shouldForceApprovedStatus inp
         then (let statusText = buildApprovedExecutionStatusText (toolResults inp)
               in \<lparr>rt_text = (if hasPendingApprovals then statusText @ NEXT_APPROVAL_PENDING_SUFFIX
                                else statusText),
                   forcedApprovedStatus = True\<rparr>)
         else if length (turn_text inp) > 0 \<and> \<not> hasTrivialCompletion inp
         then \<lparr>rt_text = (if hasPendingApprovals then turn_text inp @ APPROVAL_PENDING_SUFFIX
                          else turn_text inp),
               forcedApprovedStatus = False\<rparr>
         else if hasPendingApprovals
         then \<lparr>rt_text = (case requestTopic inp of
                             Some topic \<Rightarrow> ''Prepared the next step for '' @ [CHR 0x22] @ topic
                                             @ [CHR 0x22] @ ''.''
                           | None \<Rightarrow> ''Prepared the next step.'') @ APPROVAL_PENDING_SUFFIX,
               forcedApprovedStatus = False\<rparr>
         else \<lparr>rt_text = buildContextAwareCompletionText inp, forcedApprovedStatus = False\<rparr>)"

definition approved_turn :: "string option \<Rightarrow> turn_input" where
  "approved_turn raw =
     \<lparr>rawText = raw, userRequestText = None, approvalsCount = 0, approvalWasGranted = True,
      toolResults = [\<lparr>tr_toolName = ''tonSendBlockchainMessage'', tr_toolCallId = ''call_1'',
                      tr_output = JObj [(''type'', JStr ''json''),
                                        (''value'', JObj [(''hash'', JStr ''abc'')])]\<rparr>]\<rparr>"

subsection \<open>The forcing conditions, stated on the raw text\<close>

text \<open>
  The three conditions of C5 as properties of the raw text itself, for comparison with what
  \<open>resolveTurnResponseText\<close> computes from its trimmed and normalized copies. An absent
  raw text (\<open>undefined\<close>) counts as empty.

  Empty after trimming: every character of the raw text is white space.
\<close>

definition raw_empty_after_trim :: "string option \<Rightarrow> bool" where
  "raw_empty_after_trim raw = (case raw of None \<Rightarrow> True | Some s \<Rightarrow> list_all is_js_space s)"

text \<open>
  A plain-text approval re-ask: one of the five patterns occurs in the raw text, as
  whole words and in any case.
\<close>

definition raw_has_approval_reask :: "string option \<Rightarrow> bool" where
  "raw_has_approval_reask raw =
     (case raw of
        None \<Rightarrow> False
      | Some s \<Rightarrow> list_ex (\<lambda>pat. test_word_pattern pat s) PLAIN_TEXT_APPROVAL_PATTERNS)"

text \<open>
  The words of a text: its maximal runs of characters that are not white space.
\<close>

function js_words :: "string \<Rightarrow> string list" where
  "js_words s =
     (case dropWhile is_js_space s of
        [] \<Rightarrow> []
      | c # cs \<Rightarrow> (c # takeWhile (\<lambda>x. \<not> is_js_space x) cs)
                    # js_words (dropWhile (\<lambda>x. \<not> is_js_space x) cs))"
  by pat_completeness auto
termination
proof (relation "measure length")
  fix s :: string and c cs
  assume "dropWhile is_js_space s = c # cs"
  then have "length (c # cs) \<le> length s"
    using length_dropWhile_le [of is_js_space s] by simp
  moreover have "length (dropWhile (\<lambda>x. \<not> is_js_space x) cs) \<le> length cs"
    by (rule length_dropWhile_le)
  ultimately show "(dropWhile (\<lambda>x. \<not> is_js_space x) cs, s) \<in> measure length"
    by simp
qed simp

declare js_words.simps [simp del]

text \<open>
  A trivial completion phrase: the words of the raw text, put together with single spaces,
  are one of the seven phrases (in any case) followed by any number of \<open>.\<close> and \<open>!\<close>,
  in at most 48 characters.
\<close>

definition raw_is_trivial_completion :: "string option \<Rightarrow> bool" where
  "raw_is_trivial_completion raw =
     (case raw of
        None \<Rightarrow> False
      | Some s \<Rightarrow>
          (let phrase = join '' '' (js_words s)
           in phrase \<noteq> [] \<and> length phrase \<le> 48
              \<and> list_ex (\<lambda>word. test_trivial_pattern word phrase) TRIVIAL_COMPLETION_PATTERNS))"

text \<open>\<open>trimEnd\<close>, the second half of \<open>trim\<close>.\<close>

definition trim_end :: "string \<Rightarrow> string" where
  "trim_end s = rev (dropWhile is_js_space (rev s))"

definition blank_turn :: turn_input where
  "blank_turn =
     \<lparr>rawText = Some [CHR '' '', CHR 0x09, CHR 0x0A, CHR 0xA0], userRequestText = None,
      approvalsCount = 0, approvalWasGranted = True, toolResults = []\<rparr>"

section \<open>Risk assessment: \<open>approvals/risk-policy.ts\<close>\<close>

text \<open>
  Numbers are the exact rationals of the finite values; \<open>Number(string)\<close> is the parameter
  \<open>toNumber\<close> (\<open>None\<close> when the result is not finite) and \<open>toFixed(6)\<close> the parameter
  \<open>toFixed6\<close>. Tool names are those of the catalog, so a lookup in \<open>BASE_RISK_BY_TOOL\<close>
  finds own properties only.
\<close>

datatype ApprovalRiskLevel = Low | Medium | High | Critical

datatype ApprovalEstimateConfidence = ConfidenceHigh | ConfidenceMedium | ConfidenceLow

record ApprovalAssessment =
  level :: ApprovalRiskLevel
  reasons :: "string list"
  valueTon :: "rat option"
  gasTon :: "rat option"
  confidence :: ApprovalEstimateConfidence

record NumberCandidate =
  nc_key :: string
  nc_path :: string
  nc_value :: rat

definition BASE_RISK_BY_TOOL :: "string \<Rightarrow> ApprovalRiskLevel option" where
  "BASE_RISK_BY_TOOL name =
     (if name = ''tonSendBlockchainMessage'' then Some High
      else if name = ''tonSendBlockchainMessageBatch'' then Some Critical
      else if name = ''tonBuildAndSendExternalMessage'' then Some High
      else if name = ''tonTonConnectProof'' then Some Medium
      else None)"

definition VALUE_HINTS :: "string list" where
  "VALUE_HINTS = [''amount'', ''value'', ''ton'', ''coins'', ''send'']"

definition GAS_HINTS :: "string list" where
  "GAS_HINTS = [''gas'', ''fee'', ''fwd_fee'', ''forward_fee'', ''storage_fee'']"

text \<open>\<open>toLowerCase\<close> on code units below 256, and \<open>String.prototype.includes\<close>.\<close>

definition toLowerCase :: "string \<Rightarrow> string" where
  "toLowerCase s =
     map (\<lambda>c. let n = (of_char c :: nat)
               in if (65 \<le> n \<and> n \<le> 90) \<or> (192 \<le> n \<and> n \<le> 222 \<and> n \<noteq> 215)
                  then char_of (n + 32) else c) s"

fun str_includes :: "string \<Rightarrow> string \<Rightarrow> bool" where
  "str_includes [] h = (h = [])"
| "str_includes (c # cs) h = (prefix h (c # cs) \<or> str_includes cs h)"

definition parseNumberish :: "(string \<Rightarrow> rat option) \<Rightarrow> json \<Rightarrow> rat option" where
  "parseNumberish toNumber v =
     (case v of
        JNum n \<Rightarrow> Some n
      | JStr s \<Rightarrow> if length (js_trim s) > 0 then toNumber (js_trim s) else None
      | _ \<Rightarrow> None)"

fun walkNumericCandidates :: "(string \<Rightarrow> rat option) \<Rightarrow> json \<Rightarrow> string \<Rightarrow> NumberCandidate list"
  and walk_items :: "(string \<Rightarrow> rat option) \<Rightarrow> json list \<Rightarrow> string \<Rightarrow> int \<Rightarrow> NumberCandidate list"
  and walk_entries :: "(string \<Rightarrow> rat option) \<Rightarrow> (string \<times> json) list \<Rightarrow> string \<Rightarrow> NumberCandidate list"
  where
  "walkNumericCandidates toNumber (JArr xs) path = walk_items toNumber xs path 0"
| "walkNumericCandidates toNumber (JObj kvs) path = walk_entries toNumber kvs path"
| "walkNumericCandidates toNumber JNull path = []"
| "walkNumericCandidates toNumber (JBool b) path = []"
| "walkNumericCandidates toNumber (JNum n) path = []"
| "walkNumericCandidates toNumber (JStr s) path = []"
| "walk_items toNumber [] path index = []"
| "walk_items toNumber (x # xs) path index =
     walkNumericCandidates toNumber x (path @ ''['' @ String_of_int index @ '']'')
       @ walk_items toNumber xs path (index + 1)"
| "walk_entries toNumber [] path = []"
| "walk_entries toNumber ((entryKey, entryValue) # kvs) path =
     (let nextPath = (if length path > 0 then path @ ''.'' @ entryKey else entryKey)
      in (case parseNumberish toNumber entryValue of
            Some numberValue \<Rightarrow>
              [\<lparr>nc_key = toLowerCase entryKey, nc_path = toLowerCase nextPath,
                nc_value = numberValue\<rparr>]
          | None \<Rightarrow> [])
         @ walkNumericCandidates toNumber entryValue nextPath
         @ walk_entries toNumber kvs path)"

definition toTonValue :: "NumberCandidate \<Rightarrow> rat" where
  "toTonValue candidate =
     (if str_includes (nc_key candidate) ''nano'' \<or> str_includes (nc_path candidate) ''nano''
         \<or> str_includes (nc_path candidate) ''nanoton''
      then nc_value candidate / 1000000000 else nc_value candidate)"

text \<open>
  \<open>pickEstimate\<close>: the first element after sorting in descending order, that is the
  greatest of the non-negative values, or null.
\<close>

definition pickEstimate :: "NumberCandidate list \<Rightarrow> string list \<Rightarrow> rat option" where
  "pickEstimate candidates hints =
     (let matching = filter (\<lambda>candidate.
            list_ex (\<lambda>hint. str_includes (nc_key candidate) hint \<or> str_includes (nc_path candidate) hint)
              hints) candidates
      in if length matching = 0 then None
         else case rev (sort (filter (\<lambda>v. v \<ge> 0) (map toTonValue matching))) of
                [] \<Rightarrow> None
              | first # others \<Rightarrow> Some first)"

fun riskToScore :: "ApprovalRiskLevel \<Rightarrow> int" where
  "riskToScore Low = 0"
| "riskToScore Medium = 1"
| "riskToScore High = 2"
| "riskToScore Critical = 3"

definition scoreToRisk :: "int \<Rightarrow> ApprovalRiskLevel" where
  "scoreToRisk score =
     (if score \<le> 0 then Low else if score = 1 then Medium else if score = 2 then High
      else Critical)"

definition applyRiskProfileAdjustment ::
  "ApprovalRiskLevel \<Rightarrow> RiskProfile \<Rightarrow> rat option \<Rightarrow> ApprovalRiskLevel" where
  "applyRiskProfileAdjustment baseRisk profile value =
     (let score0 = riskToScore baseRisk;
          score1 = (if profile = Cautious then score0 + 1
                    else if profile = Advanced \<and> score0 > 0 then score0 - 1
                    else score0);
          v = (case value of None \<Rightarrow> 0 | Some x \<Rightarrow> x);
          score2 = (if v \<ge> 100 then max score1 3
                    else if v \<ge> 10 then max score1 2
                    else if v \<ge> 1 then max score1 1
                    else score1)
      in scoreToRisk (min 3 (max 0 score2)))"

definition inferBatchItemCount :: "json \<Rightarrow> int" where
  "inferBatchItemCount inp =
     (case inp of
        JObj kvs \<Rightarrow>
          (let messages = map_of kvs ''messages'';
               listed = (if messages = None \<or> messages = Some JNull
                         then map_of kvs ''transfers'' else messages)
           in case listed of Some (JArr items) \<Rightarrow> int (length items) | _ \<Rightarrow> 0)
      | _ \<Rightarrow> 0)"

definition assessApproval ::
  "(string \<Rightarrow> rat option) \<Rightarrow> (rat \<Rightarrow> string) \<Rightarrow> string \<Rightarrow> json \<Rightarrow> RiskProfile
     \<Rightarrow> ApprovalAssessment" where
  "assessApproval toNumber toFixed6 name toolInput profile =
     (let numericCandidates = walkNumericCandidates toNumber toolInput [];
          value = pickEstimate numericCandidates VALUE_HINTS;
          gas = Some (case pickEstimate numericCandidates GAS_HINTS of
                        Some g \<Rightarrow> g
                      | None \<Rightarrow> if name = ''tonSendBlockchainMessageBatch''
                                then 5 / 100 else 2 / 100);
          batchCount = inferBatchItemCount toolInput;
          why = [''Tool request: '' @ name @ ''.'']
                  @ (if batchCount > 1
                     then [''Batch operation contains '' @ String_of_int batchCount @ '' item(s).'']
                     else [])
                  @ (case value of
                       Some v \<Rightarrow> [''Estimated transfer value is '' @ toFixed6 v @ '' TON.'']
                     | None \<Rightarrow> [''Transfer value could not be determined with high confidence.''])
                  @ (case gas of
                       Some g \<Rightarrow> [''Estimated gas/fees are '' @ toFixed6 g @ '' TON.'']
                     | None \<Rightarrow> [])
                  @ (if batchCount \<ge> 5 then [''Large batch size increased risk.''] else []);
          baseRisk = (if batchCount \<ge> 5 then Critical
                      else case BASE_RISK_BY_TOOL name of Some b \<Rightarrow> b | None \<Rightarrow> Medium);
          adjustedRisk = applyRiskProfileAdjustment baseRisk profile value
      in \<lparr>level = adjustedRisk, reasons = why, valueTon = value, gasTon = gas,
          confidence = (if value \<noteq> None \<and> gas \<noteq> None then ConfidenceHigh
                        else if value \<noteq> None \<or> gas \<noteq> None then ConfidenceMedium
                        else ConfidenceLow)\<rparr>)"

definition no_hint_input :: json where
  "no_hint_input = JObj [(''to'', JStr ''EQabc123''), (''bounce'', JBool True)]"

definition value_only_input :: json where
  "value_only_input = JObj [(''to'', JStr ''EQabc123''), (''amount'', JNum (5 / 2))]"

definition no_number :: "string \<Rightarrow> rat option" where
  "no_number s = None"

definition no_digits :: "rat \<Rightarrow> string" where
  "no_digits x = ''?''"

section \<open>Theorems: update store\<close>

lemma String_of_int_42: "String_of_int 42 = ''42''"
  by (simp add: String_of_int_def dec_digits.simps digit_char_def)

text \<open>
  C9 as stated fails: a row in status \<open>processed\<close> is put back to \<open>received\<close> by a call
  of \<open>markProcessedUpdateStatus\<close> that asks for \<open>received\<close>.
\<close>

theorem C9_processed_to_received_counterexample:
  "pu_status processed_row_42 = Processed
   \<and> map_option pu_status
     (markProcessedUpdateStatus (Map.empty(''42'' \<mapsto> processed_row_42)) 3000 42 Received None ''42'')
     = Some Received"
  by (simp add: markProcessedUpdateStatus_def String_of_int_42 processed_row_42_def)

text \<open>
  C9, amended: \<open>markProcessedUpdateStatus\<close> writes the requested status into the row of the
  given update id whatever the row's current status is, and leaves every other row alone;
  it is idempotent: a second call with the same arguments leaves status and error (and,
  at the same clock reading, the whole table) as the first call left them.
\<close>

theorem C9_mark_status_overwrites_idempotent:
  "map_option pu_status (markProcessedUpdateStatus db now uid st err (String_of_int uid))
     = map_option (\<lambda>_. st) (db (String_of_int uid))
   \<and> (k \<noteq> String_of_int uid \<longrightarrow> markProcessedUpdateStatus db now uid st err k = db k)
   \<and> markProcessedUpdateStatus (markProcessedUpdateStatus db now uid st err) now uid st err
     = markProcessedUpdateStatus db now uid st err
   \<and> map_option pu_status
       (markProcessedUpdateStatus (markProcessedUpdateStatus db now uid st err) now' uid st err k)
     = map_option pu_status (markProcessedUpdateStatus db now uid st err k)
   \<and> map_option pu_error
       (markProcessedUpdateStatus (markProcessedUpdateStatus db now uid st err) now' uid st err k)
     = map_option pu_error (markProcessedUpdateStatus db now uid st err k)"
  by (cases "db (String_of_int uid)") (auto simp: markProcessedUpdateStatus_def)

theorem C9_mark_status_overwrites_idempotent_witness:
  "map_option pu_status
     (markProcessedUpdateStatus (Map.empty(''42'' \<mapsto> processed_row_42)) 3000 42 Enqueued None ''42'')
     = Some Enqueued
   \<and> markProcessedUpdateStatus (Map.empty(''42'' \<mapsto> processed_row_42)) 3000 42 Enqueued None ''7''
     = None"
  using C9_mark_status_overwrites_idempotent
    [of "Map.empty(''42'' \<mapsto> processed_row_42)" 3000 42 Enqueued None "''7''" 0]
  by (simp add: String_of_int_42)


section \<open>Theorems: approval engine\<close>

lemma updateToolApprovalDecision_status:
  "map_option ta_status (snd (updateToolApprovalDecision tbl now aid st decider reason) aid)
     = map_option (\<lambda>_. st) (tbl aid)"
  by (cases "tbl aid") (simp_all add: updateToolApprovalDecision_def Let_def)

lemma updateToolApprovalDecision_other:
  "k \<noteq> aid \<Longrightarrow> snd (updateToolApprovalDecision tbl now aid st decider reason) k = tbl k"
  by (cases "tbl aid") (simp_all add: updateToolApprovalDecision_def Let_def)

lemma expirePendingApproval_not_requested:
  assumes "tbl aid = Some a" and "ta_status a \<noteq> Requested"
  shows "expirePendingApproval tbl now aid = (None, tbl)"
  using assms by (simp add: expirePendingApproval_def)

lemma expirePendingApproval_keeps:
  assumes "tbl aid = Some a" and "ta_status a \<noteq> Requested"
  shows "snd (expirePendingApproval tbl now k) aid = Some a"
proof (cases "k = aid")
  case True
  with assms show ?thesis by (simp add: expirePendingApproval_not_requested)
next
  case False
  with assms(1) show ?thesis
    by (cases "tbl k") (simp_all add: expirePendingApproval_def Let_def)
qed

lemma expirePendingApproval_requested:
  assumes "tbl aid = Some a" and "ta_status a = Requested"
  shows "map_option ta_status (snd (expirePendingApproval tbl now aid) aid) = Some Expired"
  using assms by (simp add: expirePendingApproval_def Let_def)

lemma expirePendingApproval_changes:
  assumes "snd (expirePendingApproval tbl now aid) \<noteq> tbl"
  shows "\<exists>row. tbl aid = Some row \<and> ta_status row = Requested"
proof (cases "tbl aid")
  case None
  with assms show ?thesis by (simp add: expirePendingApproval_def)
next
  case (Some row)
  with assms show ?thesis
    by (cases "ta_status row = Requested") (simp_all add: expirePendingApproval_def)
qed

lemma decideApproval_not_requested:
  assumes "approvals db (di_approvalId inp) = Some a" and "ta_status a \<noteq> Requested"
  shows "decideApproval H num db now inp
           = (DecideFailed (''Approval already '' @ status_text (ta_status a) @ ''.''), db)"
  using assms by (simp add: decideApproval_def decideApproval_after_read_def getToolApproval_def)

lemma decideApproval_keeps:
  assumes "approvals db aid = Some a" and "ta_status a \<noteq> Requested"
  shows "approvals (snd (decideApproval H num db now inp)) aid = Some a"
proof (cases "approvals db (di_approvalId inp)")
  case None
  with assms(1) show ?thesis
    by (simp add: decideApproval_def decideApproval_after_read_def getToolApproval_def)
next
  case (Some c)
  show ?thesis
  proof (cases "ta_status c = Requested")
    case False
    with Some assms(1) show ?thesis by (simp add: decideApproval_not_requested)
  next
    case True
    with Some assms have ne: "aid \<noteq> di_approvalId inp" by auto
    show ?thesis
    proof (cases "ta_expiresAt c < now")
      case expired: True
      with Some True show ?thesis
        using expirePendingApproval_keeps [of "approvals db" aid a now "ta_approvalId c"] assms
        by (simp add: decideApproval_def decideApproval_after_read_def getToolApproval_def)
    next
      case False
      with Some True show ?thesis
        using updateToolApprovalDecision_other [OF ne, of "approvals db" now
            "if di_approved inp then Approved else Denied" "di_decidedBy inp" "di_reason inp"]
          assms(1)
        by (simp add: decideApproval_def decideApproval_after_read_def getToolApproval_def
            Let_def split_beta appendAuditEvent_def)
    qed
  qed
qed

lemma decideApproval_after_read_overwrites:
  assumes "ta_status current = Requested" and "\<not> ta_expiresAt current < now"
    and "approvals db aid = Some row"
  shows "map_option ta_status
           (approvals (snd (decideApproval_after_read H num db now (inp\<lparr>di_approvalId := aid\<rparr>)
                             (Some current))) aid)
           = Some (if di_approved inp then Approved else Denied)"
    and "\<exists>decided. fst (decideApproval_after_read H num db now (inp\<lparr>di_approvalId := aid\<rparr>)
                            (Some current)) = DecideOk decided
             \<and> ta_status decided = (if di_approved inp then Approved else Denied)"
  using assms
  by (simp_all add: decideApproval_after_read_def Let_def split_beta appendAuditEvent_def
      updateToolApprovalDecision_def)

text \<open>
  C1: what the code does. As long as nothing comes between the read and the write of a
  call, an approval that is approved, denied, expired or failed keeps its status:
  \<open>decideApproval\<close> answers \<open>Approval already <status>.\<close> and returns the database as
  it was, a call for any other approval leaves the row alone, and so do
  \<open>expirePendingApproval\<close> (which changes a table only at a row whose status is
  requested), \<open>updateToolApprovalPromptMessage\<close> and \<open>createToolApproval\<close>. But the
  guard of \<open>decideApproval\<close> is a test on the row it has read, and its write,
  \<open>updateToolApprovalDecision\<close>, sets the status of the row whatever it is by then: its
  \<open>UPDATE\<close> has no condition \<open>status = 'requested'\<close>, the one that
  \<open>expirePendingApproval\<close> has. So for an approval that a call of \<open>decideApproval\<close>
  has read as requested and not expired:
  \<^item> when the approval-timeout job expires it before the write arrives, the write turns
    the status expired into approved or denied;
  \<^item> when a second call decides it before the write arrives, the write turns denied into
    approved, or approved into denied;
  \<^item> in general the call returns \<open>ok\<close> and the row ends with the status of its decision,
    whatever status the write found.
\<close>

theorem C1_decision_overwrites_terminal_status:
  assumes "approvals db aid = Some current"
    and "ta_status current = Requested"
    and "\<not> ta_expiresAt current < now"
  shows "getToolApproval (approvals db) aid = Some current
    \<and> map_option ta_status (snd (expirePendingApproval (approvals db) t aid) aid) = Some Expired
    \<and> map_option ta_status
          (approvals
             (snd (decideApproval_after_read H num
                     (db\<lparr>approvals := snd (expirePendingApproval (approvals db) t aid)\<rparr>) now
                     (inp\<lparr>di_approvalId := aid\<rparr>) (Some current))) aid)
        = Some (if di_approved inp then Approved else Denied)
    \<and> map_option ta_status
          (approvals (snd (decideApproval H num db now (other\<lparr>di_approvalId := aid\<rparr>))) aid)
        = Some (if di_approved other then Approved else Denied)
    \<and> map_option ta_status
          (approvals
             (snd (decideApproval_after_read H num
                     (snd (decideApproval H num db now (other\<lparr>di_approvalId := aid\<rparr>))) now
                     (inp\<lparr>di_approvalId := aid\<rparr>) (Some current))) aid)
        = Some (if di_approved inp then Approved else Denied)
    \<and> (approvals later aid = Some row
         \<longrightarrow> map_option ta_status
               (approvals
                  (snd (decideApproval_after_read H num later now (inp\<lparr>di_approvalId := aid\<rparr>)
                          (Some current))) aid)
             = Some (if di_approved inp then Approved else Denied)
           \<and> (\<exists>decided.
                  fst (decideApproval_after_read H num later now (inp\<lparr>di_approvalId := aid\<rparr>)
                         (Some current)) = DecideOk decided
                  \<and> ta_status decided = (if di_approved inp then Approved else Denied)))
    \<and> map_option ta_status
          (snd (updateToolApprovalDecision tbl now' k st decider reason) k)
        = map_option (\<lambda>_. st) (tbl k)
    \<and> (snd (expirePendingApproval tbl now' k) \<noteq> tbl
         \<longrightarrow> (\<exists>pending. tbl k = Some pending \<and> ta_status pending = Requested))
    \<and> (approvals db' k = Some a \<and> ta_status a \<in> {Approved, Denied, Expired, Failed}
         \<longrightarrow> decideApproval H num db' now' (inp\<lparr>di_approvalId := k\<rparr>)
               = (DecideFailed (''Approval already '' @ status_text (ta_status a) @ ''.''), db')
           \<and> approvals (snd (decideApproval H num db' now' inp)) k = Some a
           \<and> snd (expirePendingApproval (approvals db') now' k') k = Some a
           \<and> map_option ta_status
                 (snd (updateToolApprovalPromptMessage (approvals db') k' chat thread prompt) k)
               = Some (ta_status a)
           \<and> (case createToolApproval dbError (approvals db') inserted of
                 Inl e \<Rightarrow> e = dbError \<and> ta_approvalId inserted \<in> dom (approvals db')
               | Inr (created, tbl') \<Rightarrow> tbl' k = Some a))"
proof -
  let ?decision = "\<lambda>i. if di_approved i then Approved else Denied"
  let ?expired = "db\<lparr>approvals := snd (expirePendingApproval (approvals db) t aid)\<rparr>"
  let ?first = "snd (decideApproval H num db now (other\<lparr>di_approvalId := aid\<rparr>))"
  have a1: "getToolApproval (approvals db) aid = Some current"
    using assms(1) by (simp add: getToolApproval_def)
  have a2: "map_option ta_status (snd (expirePendingApproval (approvals db) t aid) aid)
              = Some Expired"
    using assms(1,2) by (rule expirePendingApproval_requested)
  then obtain r1 where r1: "approvals ?expired aid = Some r1" by auto
  have a3: "map_option ta_status
              (approvals (snd (decideApproval_after_read H num ?expired now
                                 (inp\<lparr>di_approvalId := aid\<rparr>) (Some current))) aid)
              = Some (?decision inp)"
    using assms(2,3) r1 by (rule decideApproval_after_read_overwrites(1))
  have "decideApproval H num db now (other\<lparr>di_approvalId := aid\<rparr>)
          = decideApproval_after_read H num db now (other\<lparr>di_approvalId := aid\<rparr>) (Some current)"
    using assms(1) by (simp add: decideApproval_def getToolApproval_def)
  then have a4: "map_option ta_status (approvals ?first aid) = Some (?decision other)"
    using decideApproval_after_read_overwrites(1) [OF assms(2,3,1), of H num other] by simp
  then obtain r2 where r2: "approvals ?first aid = Some r2" by auto
  have a5: "map_option ta_status
              (approvals (snd (decideApproval_after_read H num ?first now
                                 (inp\<lparr>di_approvalId := aid\<rparr>) (Some current))) aid)
              = Some (?decision inp)"
    using assms(2,3) r2 by (rule decideApproval_after_read_overwrites(1))
  have a6: "approvals later aid = Some row
         \<longrightarrow> map_option ta_status
               (approvals
                  (snd (decideApproval_after_read H num later now (inp\<lparr>di_approvalId := aid\<rparr>)
                          (Some current))) aid)
             = Some (?decision inp)
           \<and> (\<exists>decided.
                  fst (decideApproval_after_read H num later now (inp\<lparr>di_approvalId := aid\<rparr>)
                         (Some current)) = DecideOk decided
                  \<and> ta_status decided = ?decision inp)"
    using decideApproval_after_read_overwrites [OF assms(2,3), of later aid row H num inp]
    by blast
  have a7: "map_option ta_status
              (snd (updateToolApprovalDecision tbl now' k st decider reason) k)
              = map_option (\<lambda>_. st) (tbl k)"
    by (rule updateToolApprovalDecision_status)
  have a8: "snd (expirePendingApproval tbl now' k) \<noteq> tbl
         \<longrightarrow> (\<exists>pending. tbl k = Some pending \<and> ta_status pending = Requested)"
    using expirePendingApproval_changes by blast
  have b: "decideApproval H num db' now' (inp\<lparr>di_approvalId := k\<rparr>)
               = (DecideFailed (''Approval already '' @ status_text (ta_status a) @ ''.''), db')
           \<and> approvals (snd (decideApproval H num db' now' inp)) k = Some a
           \<and> snd (expirePendingApproval (approvals db') now' k') k = Some a
           \<and> map_option ta_status
                 (snd (updateToolApprovalPromptMessage (approvals db') k' chat thread prompt) k)
               = Some (ta_status a)
           \<and> (case createToolApproval dbError (approvals db') inserted of
                 Inl e \<Rightarrow> e = dbError \<and> ta_approvalId inserted \<in> dom (approvals db')
               | Inr (created, tbl') \<Rightarrow> tbl' k = Some a)"
    if row: "approvals db' k = Some a" and st: "ta_status a \<in> {Approved, Denied, Expired, Failed}"
  proof -
    from st have nr: "ta_status a \<noteq> Requested" by auto
    have "decideApproval H num db' now' (inp\<lparr>di_approvalId := k\<rparr>)
            = (DecideFailed (''Approval already '' @ status_text (ta_status a) @ ''.''), db')"
      using row nr by (intro decideApproval_not_requested) simp_all
    moreover have "approvals (snd (decideApproval H num db' now' inp)) k = Some a"
      using row nr by (rule decideApproval_keeps)
    moreover have "snd (expirePendingApproval (approvals db') now' k') k = Some a"
      using row nr by (rule expirePendingApproval_keeps)
    moreover have "map_option ta_status
                 (snd (updateToolApprovalPromptMessage (approvals db') k' chat thread prompt) k)
               = Some (ta_status a)"
      using row
      by (cases "approvals db' k'"; cases "k' = k")
         (simp_all add: updateToolApprovalPromptMessage_def Let_def)
    moreover have "case createToolApproval dbError (approvals db') inserted of
                 Inl e \<Rightarrow> e = dbError \<and> ta_approvalId inserted \<in> dom (approvals db')
               | Inr (created, tbl') \<Rightarrow> tbl' k = Some a"
      using row by (auto simp: createToolApproval_def)
    ultimately show ?thesis by blast
  qed
  from a1 a2 a3 a4 a5 a6 a7 a8 b show ?thesis by blast
qed

theorem C1_decision_overwrites_terminal_status_witness:
  "getToolApproval (approvals pending_db) ''apr_1'' = Some requested_row
   \<and> map_option ta_status
        (snd (expirePendingApproval (approvals pending_db) 300000 ''apr_1'') ''apr_1'')
      = Some Expired
   \<and> map_option ta_status
        (approvals
           (snd (decideApproval_after_read (\<lambda>s. s) (\<lambda>r. ''0'')
                   (pending_db\<lparr>approvals :=
                      snd (expirePendingApproval (approvals pending_db) 300000 ''apr_1'')\<rparr>)
                   300000 approve_apr_1 (Some requested_row))) ''apr_1'')
      = Some Approved
   \<and> map_option ta_status
        (approvals (snd (decideApproval (\<lambda>s. s) (\<lambda>r. ''0'') pending_db 300000 deny_apr_1))
           ''apr_1'')
      = Some Denied
   \<and> map_option ta_status
        (approvals
           (snd (decideApproval_after_read (\<lambda>s. s) (\<lambda>r. ''0'')
                   (snd (decideApproval (\<lambda>s. s) (\<lambda>r. ''0'') pending_db 300000 deny_apr_1))
                   300000 approve_apr_1 (Some requested_row))) ''apr_1'')
      = Some Approved
   \<and> pending_db\<lparr>approvals :=
                    snd (expirePendingApproval (approvals pending_db) 300000 ''apr_1'')\<rparr>
      = expired_db
   \<and> (\<exists>decided.
         fst (decideApproval_after_read (\<lambda>s. s) (\<lambda>r. ''0'') expired_db 300000 approve_apr_1
                (Some requested_row)) = DecideOk decided
         \<and> ta_status decided = Approved)
   \<and> (\<exists>pending. approvals pending_db ''apr_1'' = Some pending \<and> ta_status pending = Requested)
   \<and> decideApproval (\<lambda>s. s) (\<lambda>r. ''0'') expired_db 300000 approve_apr_1
      = (DecideFailed ''Approval already expired.'', expired_db)
   \<and> snd (expirePendingApproval (approvals expired_db) 300000 ''apr_1'') ''apr_1''
      = Some expired_row"
proof -
  have look: "approvals pending_db ''apr_1'' = Some requested_row"
    by (simp add: pending_db_def)
  have req: "ta_status requested_row = Requested" "\<not> ta_expiresAt requested_row < 300000"
    by (simp_all add: requested_row_def)
  have inps: "approve_apr_1\<lparr>di_approvalId := ''apr_1''\<rparr> = approve_apr_1"
    "deny_apr_1\<lparr>di_approvalId := ''apr_1''\<rparr> = deny_apr_1"
    "di_approved approve_apr_1" "\<not> di_approved deny_apr_1"
    by (simp_all add: approve_apr_1_def deny_apr_1_def)
  have settled: "approvals expired_db ''apr_1'' = Some expired_row"
    "ta_status expired_row \<in> {Approved, Denied, Expired, Failed}"
    by (simp_all add: expired_db_def expired_row_def)
  have shown: "status_text (ta_status expired_row) = ''expired''"
    by (simp add: expired_row_def)
  have exp: "map_option ta_status
               (snd (expirePendingApproval (approvals pending_db) 300000 ''apr_1'') ''apr_1'')
             = Some Expired"
    using look req(1) by (rule expirePendingApproval_requested)
  have changed: "snd (expirePendingApproval (approvals pending_db) 300000 ''apr_1'')
                   \<noteq> approvals pending_db"
  proof
    assume "snd (expirePendingApproval (approvals pending_db) 300000 ''apr_1'')
              = approvals pending_db"
    with exp have "map_option ta_status (approvals pending_db ''apr_1'') = Some Expired"
      by simp
    with look req(1) show False by simp
  qed
  have same: "pending_db\<lparr>approvals :=
                           snd (expirePendingApproval (approvals pending_db) 300000 ''apr_1'')\<rparr>
               = expired_db"
    by (simp add: expirePendingApproval_def pending_db_def expired_db_def expired_row_def
        requested_row_def Let_def)
  note run = C1_decision_overwrites_terminal_status [OF look req,
        where t = 300000 and H = "\<lambda>s. s" and num = "\<lambda>r. ''0''" and inp = approve_apr_1
          and other = deny_apr_1 and later = expired_db and row = expired_row
          and tbl = "approvals pending_db" and now' = 300000 and k = "''apr_1''"
          and st = Approved and decider = "''2001''" and reason = None
          and db' = expired_db and a = expired_row and k' = "''apr_1''"
          and chat = "''100''" and thread = None and prompt = 77
          and dbError = "Exn []" and inserted = expired_row]
  note r1 = run [THEN conjunct1]
  note r2 = run [THEN conjunct2, THEN conjunct1]
  note r3 = run [THEN conjunct2, THEN conjunct2, THEN conjunct1]
  note r4 = run [THEN conjunct2, THEN conjunct2, THEN conjunct2, THEN conjunct1]
  note r5 = run [THEN conjunct2, THEN conjunct2, THEN conjunct2, THEN conjunct2, THEN conjunct1]
  note r6 = run [THEN conjunct2, THEN conjunct2, THEN conjunct2, THEN conjunct2, THEN conjunct2,
      THEN conjunct1, THEN mp, OF settled(1), THEN conjunct2]
  note r8 = run [THEN conjunct2, THEN conjunct2, THEN conjunct2, THEN conjunct2, THEN conjunct2,
      THEN conjunct2, THEN conjunct2, THEN conjunct1, THEN mp, OF changed]
  have prem: "approvals expired_db ''apr_1'' = Some expired_row
              \<and> ta_status expired_row \<in> {Approved, Denied, Expired, Failed}"
    using settled by (rule conjI)
  note kept = run [THEN conjunct2, THEN conjunct2, THEN conjunct2, THEN conjunct2, THEN conjunct2,
      THEN conjunct2, THEN conjunct2, THEN conjunct2, THEN mp, OF prem]
  note k1 = kept [THEN conjunct1]
  note k3 = kept [THEN conjunct2, THEN conjunct2, THEN conjunct1]
  show ?thesis
    using r1 r2 r3 r4 r5 r6 r8 k1 k3 same by (simp add: inps shown)
qed

section \<open>Theorems: audit chain\<close>






section \<open>Theorems: callback token\<close>

lemma alphabet_token_chars: "\<forall>c \<in> set base64url_alphabet. is_token_char c"
  by (simp add: base64url_alphabet_def is_token_char_def)

lemma b64_token_char: "i < 64 \<Longrightarrow> is_token_char (b64 i)"
proof -
  assume "i < 64"
  then have "i < length base64url_alphabet" by (simp add: base64url_alphabet_def)
  then have "base64url_alphabet ! i \<in> set base64url_alphabet" by (rule nth_mem)
  with alphabet_token_chars show ?thesis by (simp add: b64_def)
qed

lemma seven_bytes:
  assumes "length (rnd :: 8 word list) = 7"
  obtains a b c d e f g where "rnd = [a, b, c, d, e, f, g]"
  using assms by (auto simp: length_Suc_conv eval_nat_numeral)

lemma unat8: "unat (w :: 8 word) < 256"
  using unsigned_less [of w] by simp

lemma sextet_bounds:
  fixes x y :: nat
  assumes "x < 256" and "y < 256"
  shows "x div 4 < 64" and "x mod 64 < 64" and "x mod 4 * 16 + y div 16 < 64"
    and "x mod 16 * 4 + y div 64 < 64" and "x mod 4 * 16 < 64"
proof -
  have a: "x mod 4 < 4" "x mod 16 < 16" by simp_all
  have b: "y div 16 < 16" "y div 64 < 4" using assms(2) by (simp_all add: less_mult_imp_div_less)
  show "x div 4 < 64" using assms(1) by (simp add: less_mult_imp_div_less)
  show "x mod 64 < 64" by simp
  show "x mod 4 * 16 + y div 16 < 64" using a(1) b(1) by linarith
  show "x mod 16 * 4 + y div 64 < 64" using a(2) b(2) by linarith
  show "x mod 4 * 16 < 64" using a(1) by linarith
qed

lemma last_sextet: "b64 ((x::nat) mod 4 * 16) \<in> set ''AQgw''"
proof -
  have "x mod 4 = 0 \<or> x mod 4 = 1 \<or> x mod 4 = 2 \<or> x mod 4 = 3" by presburger
  then show ?thesis
    by (auto simp: b64_def base64url_alphabet_def)
qed

text \<open>
  C7: what the code does. Seven random bytes make ten base64url characters (two groups
  of three bytes and a rest of one byte), all of the URL-safe alphabet, so the filter and
  the \<open>slice(0, 14)\<close> change nothing: every callback token has exactly 10 characters,
  below the 14 that the claim gives as the minimum, and its last character, which carries
  two bits, is one of \<open>A\<close>, \<open>Q\<close>, \<open>g\<close> and \<open>w\<close>.
\<close>

theorem C7_token_has_ten_chars:
  assumes "length rnd = 7"
  shows "length (createApprovalCallbackToken rnd) = 10
         \<and> (\<forall>c \<in> set (createApprovalCallbackToken rnd). is_token_char c)
         \<and> createApprovalCallbackToken rnd = base64url rnd
         \<and> createApprovalCallbackToken rnd ! 9 \<in> set ''AQgw''"
proof -
  from assms obtain a b c d e f g where rnd: "rnd = [a, b, c, d, e, f, g]"
    by (rule seven_bytes)
  note small = sextet_bounds [OF unat8 unat8]
  have all: "filter is_token_char (base64url rnd) = base64url rnd"
    unfolding rnd by (simp add: b64_token_char small)
  have tok: "createApprovalCallbackToken rnd = base64url rnd"
    unfolding createApprovalCallbackToken_def all by (simp add: rnd)
  have "base64url rnd ! 9 = b64 (unat g mod 4 * 16)"
    by (simp add: rnd)
  then have "createApprovalCallbackToken rnd ! 9 \<in> set ''AQgw''"
    unfolding tok using last_sextet [of "unat g"] by simp
  moreover have "length (base64url rnd) = 10" by (simp add: rnd)
  moreover have "\<forall>c \<in> set (base64url rnd). is_token_char c"
    unfolding rnd by (simp add: b64_token_char small)
  ultimately show ?thesis using tok by simp
qed

theorem C7_token_has_ten_chars_witness:
  "createApprovalCallbackToken [255, 254, 3, 77, 0, 19, 128] = ''__4DTQATgA''
   \<and> length (createApprovalCallbackToken [255, 254, 3, 77, 0, 19, 128]) = 10"
proof -
  have "length ([255, 254, 3, 77, 0, 19, 128] :: 8 word list) = 7" by simp
  from C7_token_has_ten_chars [OF this]
  have "length (createApprovalCallbackToken [255, 254, 3, 77, 0, 19, 128]) = 10" by simp
  moreover have "createApprovalCallbackToken [255, 254, 3, 77, 0, 19, 128] = ''__4DTQATgA''"
    by (simp add: createApprovalCallbackToken_def b64_def base64url_alphabet_def is_token_char_def)
  ultimately show ?thesis by simp
qed

section \<open>Theorems: provider fallback\<close>

lemma consume_chunks_acc:
  "consume_chunks cs (b, s, out)
     = (b \<or> emitted_deltas cs \<noteq> [], s @ concat (emitted_deltas cs), out @ emitted_deltas cs)"
proof (induction cs arbitrary: b s out)
  case Nil
  then show ?case by (simp add: emitted_deltas_def)
next
  case (Cons c cs)
  show ?case
  proof (cases c)
    case (TextDelta t)
    then show ?thesis using Cons.IH by (simp add: emitted_deltas_def)
  next
    case OtherChunk
    then show ?thesis using Cons.IH by (simp add: emitted_deltas_def)
  qed
qed

lemma consume_chunks_start:
  "consume_chunks cs (False, [], [])
     = (emitted_deltas cs \<noteq> [], concat (emitted_deltas cs), emitted_deltas cs)"
  by (simp add: consume_chunks_acc)

lemma primary_fails_after_delta:
  assumes "outcome (model a0) = Inl err" and "emitted_deltas (chunks (model a0)) \<noteq> []"
  shows "executeWithProviderFallback tc cb (a0 # a1 # rest)
           = (Inl err, \<lparr>started = [0], emitted = (if cb then emitted_deltas (chunks (model a0)) else [])\<rparr>)"
  using assms by (simp add: executeWithProviderFallback_def consume_chunks_start)

lemma primary_fails_before_delta:
  assumes "outcome (model a0) = Inl err" and "emitted_deltas (chunks (model a0)) = []"
  shows "executeWithProviderFallback tc cb (a0 # a1 # rest)
           = run_attempts tc cb True 1 (Some err) (a1 # rest) \<lparr>started = [0], emitted = []\<rparr>"
  using assms by (simp add: executeWithProviderFallback_def consume_chunks_start)

lemma fallback_started:
  "started (snd (run_attempts tc cb fb 1 pe (a1 # rest) tr)) = started tr @ [1]"
  by (cases "outcome (model a1)")
     (auto simp: Let_def split: prod.splits sum.splits)

lemma fallback_result:
  "fst (run_attempts tc cb fb 1 (Some err) (a1 # rest) tr)
     = (case outcome (model a1) of
          Inl e \<Rightarrow> Inl e
        | Inr (streamText, msgs) \<Rightarrow>
            Inr \<lparr>res_provider = provider a1, res_modelId = modelId a1,
                 res_toolChoice = tc,
                 responseText = (if js_trim streamText \<noteq> [] then streamText
                                 else concat (emitted_deltas (chunks (model a1)))),
                 responseMessages = msgs, usedFallback = True,
                 primaryErrorMessage = Some (exn_message err)\<rparr>)"
  by (cases "outcome (model a1)")
     (auto simp: Let_def consume_chunks_start split: prod.splits sum.splits)

text \<open>
  C2: with a fallback attempt configured and the primary stream failing, the fallback
  attempt is started if and only if the primary stream handed on no text delta before it
  failed (the deltas that count are the non-empty ones, the only ones the executor passes
  on). After at least one delta the primary error is the result and only attempt 0 was
  started; after none, attempt 1 runs and its outcome is the result.
\<close>

theorem C2_fallback_iff_no_delta:
  assumes "outcome (model a0) = Inl err"
  shows "(1 \<in> set (started (snd (executeWithProviderFallback tc cb (a0 # a1 # rest))))
            \<longleftrightarrow> emitted_deltas (chunks (model a0)) = [])
         \<and> (emitted_deltas (chunks (model a0)) \<noteq> []
              \<longrightarrow> fst (executeWithProviderFallback tc cb (a0 # a1 # rest)) = Inl err
                  \<and> started (snd (executeWithProviderFallback tc cb (a0 # a1 # rest))) = [0])
         \<and> (emitted_deltas (chunks (model a0)) = []
              \<longrightarrow> started (snd (executeWithProviderFallback tc cb (a0 # a1 # rest))) = [0, 1]
                  \<and> fst (executeWithProviderFallback tc cb (a0 # a1 # rest))
                      = (case outcome (model a1) of
                           Inl e \<Rightarrow> Inl e
                         | Inr (streamText, msgs) \<Rightarrow>
                             Inr \<lparr>res_provider = provider a1, res_modelId = modelId a1,
                 res_toolChoice = tc,
                                  responseText = (if js_trim streamText \<noteq> [] then streamText
                                                  else concat (emitted_deltas (chunks (model a1)))),
                                  responseMessages = msgs, usedFallback = True,
                                  primaryErrorMessage = Some (exn_message err)\<rparr>))"
proof (cases "emitted_deltas (chunks (model a0)) = []")
  case True
  have run: "executeWithProviderFallback tc cb (a0 # a1 # rest)
               = run_attempts tc cb True 1 (Some err) (a1 # rest) \<lparr>started = [0], emitted = []\<rparr>"
    using assms True by (rule primary_fails_before_delta)
  have "started (snd (executeWithProviderFallback tc cb (a0 # a1 # rest))) = [0, 1]"
    unfolding run fallback_started by simp
  moreover have "fst (executeWithProviderFallback tc cb (a0 # a1 # rest))
      = (case outcome (model a1) of
           Inl e \<Rightarrow> Inl e
         | Inr (streamText, msgs) \<Rightarrow>
             Inr \<lparr>res_provider = provider a1, res_modelId = modelId a1,
                 res_toolChoice = tc,
                  responseText = (if js_trim streamText \<noteq> [] then streamText
                                  else concat (emitted_deltas (chunks (model a1)))),
                  responseMessages = msgs, usedFallback = True,
                  primaryErrorMessage = Some (exn_message err)\<rparr>)"
    unfolding run by (rule fallback_result)
  ultimately show ?thesis using True by simp
next
  case False
  have "executeWithProviderFallback tc cb (a0 # a1 # rest)
           = (Inl err, \<lparr>started = [0], emitted = (if cb then emitted_deltas (chunks (model a0)) else [])\<rparr>)"
    using assms False by (rule primary_fails_after_delta)
  then show ?thesis using False by simp
qed

theorem C2_fallback_iff_no_delta_witness:
  "fst (executeWithProviderFallback Auto True
          [failing_primary [TextDelta ''a'', TextDelta ''b'', TextDelta ''c''], good_fallback])
     = Inl (Exn ''stream failed'')
   \<and> started (snd (executeWithProviderFallback Auto True
          [failing_primary [TextDelta ''a'', TextDelta ''b'', TextDelta ''c''], good_fallback]))
     = [0]
   \<and> started (snd (executeWithProviderFallback Auto True
          [failing_primary [OtherChunk, TextDelta []], good_fallback]))
     = [0, 1]"
  using C2_fallback_iff_no_delta
      [where ?a0.0 = "failing_primary [TextDelta ''a'', TextDelta ''b'', TextDelta ''c'']"
         and err = "Exn ''stream failed''" and tc = Auto and cb = True
         and ?a1.0 = good_fallback and rest = "[]"]
    C2_fallback_iff_no_delta
      [where ?a0.0 = "failing_primary [OtherChunk, TextDelta []]"
         and err = "Exn ''stream failed''" and tc = Auto and cb = True
         and ?a1.0 = good_fallback and rest = "[]"]
  by (simp add: failing_primary_def emitted_deltas_def)

section \<open>Theorems: rate limiter\<close>

lemma asPositiveInt_pos: "1 \<le> asPositiveInt t"
  by (simp add: asPositiveInt_def)

lemma after_incr_frame:
  "eval_keys (after_incr r key t) = eval_keys r @ [key]"
  "server_ms (after_incr r key t) = server_ms r"
  "k \<noteq> key \<Longrightarrow> entries (after_incr r key t) k = entries r k"
  by (simp_all add: after_incr_def INCR_WITH_TTL_LUA_def Let_def)

lemma after_incr_other:
  assumes "k \<noteq> key"
  shows "redis_live (after_incr r key t) k = redis_live r k"
    and "next_count (after_incr r key t) k = next_count r k"
    and "live_value (after_incr r key t) k = live_value r k"
  using assms by (auto simp: redis_live_def next_count_def live_value_def after_incr_frame split: option.splits)

lemma after_incr_same:
  assumes "1 \<le> t"
  shows "live_value (after_incr r key t) key
           = Some (case live_value r key of None \<Rightarrow> 1 | Some v \<Rightarrow> v + 1)"
proof (cases "redis_live r key")
  case None
  then show ?thesis using assms
    by (simp add: live_value_def after_incr_def INCR_WITH_TTL_LUA_def Let_def redis_live_def)
next
  case (Some ve)
  obtain v e where ve: "ve = (v, e)" by (cases ve)
  have live: "\<And>t'. e = Some t' \<Longrightarrow> \<not> server_ms r > t'"
    using Some ve by (auto simp: redis_live_def split: option.splits if_splits)
  show ?thesis
  proof (cases e)
    case None
    then show ?thesis using Some ve assms
      by (simp add: live_value_def after_incr_def INCR_WITH_TTL_LUA_def Let_def redis_live_def)
  next
    case (Some t')
    with live have "\<not> server_ms r > t'" by simp
    then show ?thesis using \<open>redis_live r key = Some ve\<close> ve Some assms
      by (simp add: live_value_def after_incr_def INCR_WITH_TTL_LUA_def Let_def redis_live_def)
  qed
qed


lemma incrementCounter_lua:
  obtains c where
    "incrementCounter INCR_WITH_TTL_LUA r key ttl = (Inr c, after_incr r key (asPositiveInt ttl))"
    and "cr_count c = next_count r key" and "1 \<le> cr_ttlSeconds c"
proof -
  let ?c = "\<lparr>cr_count = next_count r key,
             cr_ttlSeconds = max 1 (parseLuaInt
               (case fst (INCR_WITH_TTL_LUA r key (asPositiveInt ttl)) of
                  Inr (ReplyArray (a # b # others)) \<Rightarrow> b | _ \<Rightarrow> None) (asPositiveInt ttl))\<rparr>"
  have "incrementCounter INCR_WITH_TTL_LUA r key ttl = (Inr ?c, after_incr r key (asPositiveInt ttl))"
    by (cases "redis_live r key")
       (auto simp: incrementCounter_def INCR_WITH_TTL_LUA_def after_incr_def Let_def
          next_count_def parseLuaInt_def)
  then show ?thesis by (rule that) simp_all
qed

lemma user_keys_distinct:
  "user_burst_key config now u \<noteq> user_minute_key config now u"
  "user_burst_key config now u \<noteq> user_daily_key now u"
  "user_minute_key config now u \<noteq> user_daily_key now u"
  by (simp_all add: user_burst_key_def user_minute_key_def user_daily_key_def)


lemma quota_lua_burst_denied:
  assumes "burstMax (user_limits config u) < next_count r (user_burst_key config now u)"
  shows "rl_reason (fst (checkUserTurnQuota INCR_WITH_TTL_LUA config now r u)) = UserBurst"
    and "\<not> rl_allowed (fst (checkUserTurnQuota INCR_WITH_TTL_LUA config now r u))"
    and "snd (checkUserTurnQuota INCR_WITH_TTL_LUA config now r u) = after_burst config now u r"
proof -
  obtain c1 where c1:
    "incrementCounter INCR_WITH_TTL_LUA r (user_burst_key config now u)
       (burstWindowSeconds config + COUNTER_TTL_GRACE_SECONDS)
     = (Inr c1, after_burst config now u r)"
    "cr_count c1 = next_count r (user_burst_key config now u)"
    unfolding after_burst_def by (rule incrementCounter_lua)
  have run: "checkUserTurnQuota INCR_WITH_TTL_LUA config now r u
        = (deniedDecision (getTierForUser u config) UserBurst (cr_ttlSeconds c1) None,
           after_burst config now u r)"
    using assms c1
    by (simp add: checkUserTurnQuota_def checkUserTurnQuota_try_def user_limits_def Let_def)
  show "rl_reason (fst (checkUserTurnQuota INCR_WITH_TTL_LUA config now r u)) = UserBurst"
    and "\<not> rl_allowed (fst (checkUserTurnQuota INCR_WITH_TTL_LUA config now r u))"
    and "snd (checkUserTurnQuota INCR_WITH_TTL_LUA config now r u) = after_burst config now u r"
    unfolding run by (simp_all add: deniedDecision_def)
qed

lemma next_count_after_burst:
  "next_count (after_burst config now u r) (user_minute_key config now u)
     = next_count r (user_minute_key config now u)"
  "next_count (after_burst config now u r) (user_daily_key now u)
     = next_count r (user_daily_key now u)"
  unfolding after_burst_def
  using user_keys_distinct [of config now u] by (simp_all add: after_incr_other)

lemma next_count_after_minute:
  "next_count (after_minute config now u r) (user_daily_key now u)
     = next_count r (user_daily_key now u)"
  unfolding after_minute_def
  using user_keys_distinct [of config now u]
  by (simp add: after_incr_other next_count_after_burst)

lemma quota_lua_minute_denied:
  assumes "next_count r (user_burst_key config now u) \<le> burstMax (user_limits config u)"
    and "minuteMax (user_limits config u) < next_count r (user_minute_key config now u)"
  shows "rl_reason (fst (checkUserTurnQuota INCR_WITH_TTL_LUA config now r u)) = UserMinute"
    and "\<not> rl_allowed (fst (checkUserTurnQuota INCR_WITH_TTL_LUA config now r u))"
    and "snd (checkUserTurnQuota INCR_WITH_TTL_LUA config now r u) = after_minute config now u r"
proof -
  obtain c1 where c1:
    "incrementCounter INCR_WITH_TTL_LUA r (user_burst_key config now u)
       (burstWindowSeconds config + COUNTER_TTL_GRACE_SECONDS)
     = (Inr c1, after_burst config now u r)"
    "cr_count c1 = next_count r (user_burst_key config now u)"
    unfolding after_burst_def by (rule incrementCounter_lua)
  obtain c2 where c2:
    "incrementCounter INCR_WITH_TTL_LUA (after_burst config now u r) (user_minute_key config now u)
       (minuteWindowSeconds config + COUNTER_TTL_GRACE_SECONDS)
     = (Inr c2, after_minute config now u r)"
    "cr_count c2 = next_count (after_burst config now u r) (user_minute_key config now u)"
    unfolding after_minute_def by (rule incrementCounter_lua)
  have run: "checkUserTurnQuota INCR_WITH_TTL_LUA config now r u
        = (deniedDecision (getTierForUser u config) UserMinute (cr_ttlSeconds c2) None,
           after_minute config now u r)"
    using assms c1 c2
    by (simp add: checkUserTurnQuota_def checkUserTurnQuota_try_def user_limits_def Let_def
          next_count_after_burst)
  show "rl_reason (fst (checkUserTurnQuota INCR_WITH_TTL_LUA config now r u)) = UserMinute"
    and "\<not> rl_allowed (fst (checkUserTurnQuota INCR_WITH_TTL_LUA config now r u))"
    and "snd (checkUserTurnQuota INCR_WITH_TTL_LUA config now r u) = after_minute config now u r"
    unfolding run by (simp_all add: deniedDecision_def)
qed

lemma quota_lua_daily_reached:
  assumes "next_count r (user_burst_key config now u) \<le> burstMax (user_limits config u)"
    and "next_count r (user_minute_key config now u) \<le> minuteMax (user_limits config u)"
  shows "rl_reason (fst (checkUserTurnQuota INCR_WITH_TTL_LUA config now r u))
           = (if dailyMax (user_limits config u) < next_count r (user_daily_key now u)
              then UserDaily else Allowed)"
    and "rl_allowed (fst (checkUserTurnQuota INCR_WITH_TTL_LUA config now r u))
           \<longleftrightarrow> next_count r (user_daily_key now u) \<le> dailyMax (user_limits config u)"
    and "dailyUsed (fst (checkUserTurnQuota INCR_WITH_TTL_LUA config now r u))
           = Some (next_count r (user_daily_key now u))"
    and "dailyLimit (fst (checkUserTurnQuota INCR_WITH_TTL_LUA config now r u))
           = Some (dailyMax (user_limits config u))"
    and "snd (checkUserTurnQuota INCR_WITH_TTL_LUA config now r u) = after_daily config now u r"
proof -
  obtain c1 where c1:
    "incrementCounter INCR_WITH_TTL_LUA r (user_burst_key config now u)
       (burstWindowSeconds config + COUNTER_TTL_GRACE_SECONDS)
     = (Inr c1, after_burst config now u r)"
    "cr_count c1 = next_count r (user_burst_key config now u)"
    unfolding after_burst_def by (rule incrementCounter_lua)
  obtain c2 where c2:
    "incrementCounter INCR_WITH_TTL_LUA (after_burst config now u r) (user_minute_key config now u)
       (minuteWindowSeconds config + COUNTER_TTL_GRACE_SECONDS)
     = (Inr c2, after_minute config now u r)"
    "cr_count c2 = next_count (after_burst config now u r) (user_minute_key config now u)"
    unfolding after_minute_def by (rule incrementCounter_lua)
  obtain c3 where c3:
    "incrementCounter INCR_WITH_TTL_LUA (after_minute config now u r) (user_daily_key now u)
       (counterTtlSeconds (getUtcDailyWindow now))
     = (Inr c3, after_daily config now u r)"
    "cr_count c3 = next_count (after_minute config now u r) (user_daily_key now u)"
    unfolding after_daily_def by (rule incrementCounter_lua)
  have run: "checkUserTurnQuota INCR_WITH_TTL_LUA config now r u
        = ((if dailyMax (user_limits config u) < next_count r (user_daily_key now u)
            then deniedDecision (getTierForUser u config) UserDaily
                   (secondsUntilReset (getUtcDailyWindow now))
                   (Some (next_count r (user_daily_key now u), dailyMax (user_limits config u),
                          w_resetsAtUtc (getUtcDailyWindow now)))
            else allowedDecision (getTierForUser u config)
                   (Some (next_count r (user_daily_key now u), dailyMax (user_limits config u),
                          w_resetsAtUtc (getUtcDailyWindow now)))),
           after_daily config now u r)"
    using assms c1 c2 c3
    by (simp add: checkUserTurnQuota_def checkUserTurnQuota_try_def user_limits_def Let_def
          next_count_after_burst next_count_after_minute)
  show "rl_reason (fst (checkUserTurnQuota INCR_WITH_TTL_LUA config now r u))
           = (if dailyMax (user_limits config u) < next_count r (user_daily_key now u)
              then UserDaily else Allowed)"
    and "rl_allowed (fst (checkUserTurnQuota INCR_WITH_TTL_LUA config now r u))
           \<longleftrightarrow> next_count r (user_daily_key now u) \<le> dailyMax (user_limits config u)"
    and "dailyUsed (fst (checkUserTurnQuota INCR_WITH_TTL_LUA config now r u))
           = Some (next_count r (user_daily_key now u))"
    and "dailyLimit (fst (checkUserTurnQuota INCR_WITH_TTL_LUA config now r u))
           = Some (dailyMax (user_limits config u))"
    and "snd (checkUserTurnQuota INCR_WITH_TTL_LUA config now r u) = after_daily config now u r"
    unfolding run by (auto simp: deniedDecision_def allowedDecision_def)
qed



lemma incrementCounter_raises:
  assumes "fst (ev s key (asPositiveInt ttl)) = Inl e"
  shows "fst (incrementCounter ev s key ttl) = Inl e"
  using assms by (cases "ev s key (asPositiveInt ttl)") (simp add: incrementCounter_def)

lemma chat_try_raises:
  assumes "fst (checkChatSpamLimit_try ev config now s chat u) = Inl e"
  shows "fst (checkChatSpamLimit ev config now s chat u) = failOpenDecision (getTierForUser u config)"
  using assms
  by (cases "checkChatSpamLimit_try ev config now s chat u") (simp add: checkChatSpamLimit_def)

lemma user_try_raises:
  assumes "fst (checkUserTurnQuota_try ev config now s u) = Inl e"
  shows "fst (checkUserTurnQuota ev config now s u) = failOpenDecision (getTierForUser u config)"
  using assms
  by (cases "checkUserTurnQuota_try ev config now s u") (simp add: checkUserTurnQuota_def)

lemma chat_store_raises:
  assumes "fst (ev s (chat_minute_key config now chat)
             (asPositiveInt (minuteWindowSeconds config + COUNTER_TTL_GRACE_SECONDS))) = Inl e"
  shows "fst (checkChatSpamLimit_try ev config now s chat u) = Inl e"
proof -
  have "fst (incrementCounter ev s (chat_minute_key config now chat)
      (minuteWindowSeconds config + COUNTER_TTL_GRACE_SECONDS)) = Inl e"
    using assms by (simp add: incrementCounter_raises)
  then obtain s' where "incrementCounter ev s (chat_minute_key config now chat)
      (minuteWindowSeconds config + COUNTER_TTL_GRACE_SECONDS) = (Inl e, s')"
    by (cases "incrementCounter ev s (chat_minute_key config now chat)
      (minuteWindowSeconds config + COUNTER_TTL_GRACE_SECONDS)") simp
  then show ?thesis by (simp add: checkChatSpamLimit_try_def)
qed

lemma user_store_raises_burst:
  assumes "fst (ev s (user_burst_key config now u)
             (asPositiveInt (burstWindowSeconds config + COUNTER_TTL_GRACE_SECONDS))) = Inl e"
  shows "fst (checkUserTurnQuota_try ev config now s u) = Inl e"
proof -
  have "fst (incrementCounter ev s (user_burst_key config now u)
      (burstWindowSeconds config + COUNTER_TTL_GRACE_SECONDS)) = Inl e"
    using assms by (simp add: incrementCounter_raises)
  then obtain s' where "incrementCounter ev s (user_burst_key config now u)
      (burstWindowSeconds config + COUNTER_TTL_GRACE_SECONDS) = (Inl e, s')"
    by (cases "incrementCounter ev s (user_burst_key config now u)
      (burstWindowSeconds config + COUNTER_TTL_GRACE_SECONDS)") simp
  then show ?thesis by (simp add: checkUserTurnQuota_try_def)
qed

lemma user_store_raises_minute:
  assumes "incrementCounter ev s (user_burst_key config now u)
             (burstWindowSeconds config + COUNTER_TTL_GRACE_SECONDS) = (Inr c1, s1)"
    and "cr_count c1 \<le> burstMax (user_limits config u)"
    and "fst (ev s1 (user_minute_key config now u)
             (asPositiveInt (minuteWindowSeconds config + COUNTER_TTL_GRACE_SECONDS))) = Inl e"
  shows "fst (checkUserTurnQuota_try ev config now s u) = Inl e"
proof -
  have "fst (incrementCounter ev s1 (user_minute_key config now u)
      (minuteWindowSeconds config + COUNTER_TTL_GRACE_SECONDS)) = Inl e"
    using assms(3) by (simp add: incrementCounter_raises)
  then obtain s' where "incrementCounter ev s1 (user_minute_key config now u)
      (minuteWindowSeconds config + COUNTER_TTL_GRACE_SECONDS) = (Inl e, s')"
    by (cases "incrementCounter ev s1 (user_minute_key config now u)
      (minuteWindowSeconds config + COUNTER_TTL_GRACE_SECONDS)") simp
  then show ?thesis using assms(1,2)
    by (simp add: checkUserTurnQuota_try_def user_limits_def)
qed

lemma user_store_raises_daily:
  assumes "incrementCounter ev s (user_burst_key config now u)
             (burstWindowSeconds config + COUNTER_TTL_GRACE_SECONDS) = (Inr c1, s1)"
    and "cr_count c1 \<le> burstMax (user_limits config u)"
    and "incrementCounter ev s1 (user_minute_key config now u)
             (minuteWindowSeconds config + COUNTER_TTL_GRACE_SECONDS) = (Inr c2, s2)"
    and "cr_count c2 \<le> minuteMax (user_limits config u)"
    and "fst (ev s2 (user_daily_key now u)
             (asPositiveInt (counterTtlSeconds (getUtcDailyWindow now)))) = Inl e"
  shows "fst (checkUserTurnQuota_try ev config now s u) = Inl e"
proof -
  have "fst (incrementCounter ev s2 (user_daily_key now u)
      (counterTtlSeconds (getUtcDailyWindow now))) = Inl e"
    using assms(5) by (simp add: incrementCounter_raises)
  then obtain s' where "incrementCounter ev s2 (user_daily_key now u)
      (counterTtlSeconds (getUtcDailyWindow now)) = (Inl e, s')"
    by (cases "incrementCounter ev s2 (user_daily_key now u)
      (counterTtlSeconds (getUtcDailyWindow now))") simp
  then show ?thesis using assms(1-4)
    by (simp add: checkUserTurnQuota_try_def user_limits_def Let_def)
qed

text \<open>
  C4: whenever a script call that \<open>checkChatSpamLimit\<close> or \<open>checkUserTurnQuota\<close> makes
  raises (the only call of the chat check; the burst call, the minute call after a burst
  count within its limit, or the daily call after a minute count within its limit, of the
  quota check), and more generally whenever the \<open>try\<close> block raises, the decision is the
  fail-open one: allowed, with reason \<open>rate_limit_storage_error\<close>. Both functions return
  a decision for every store, so neither raises.
\<close>

theorem C4_fail_open_on_storage_error:
  "(fst (ev s (chat_minute_key config now chat)
          (asPositiveInt (minuteWindowSeconds config + COUNTER_TTL_GRACE_SECONDS))) = Inl e
      \<longrightarrow> fst (checkChatSpamLimit ev config now s chat u)
            = failOpenDecision (getTierForUser u config))
   \<and> (fst (ev s (user_burst_key config now u)
          (asPositiveInt (burstWindowSeconds config + COUNTER_TTL_GRACE_SECONDS))) = Inl e
      \<longrightarrow> fst (checkUserTurnQuota ev config now s u)
            = failOpenDecision (getTierForUser u config))
   \<and> (incrementCounter ev s (user_burst_key config now u)
          (burstWindowSeconds config + COUNTER_TTL_GRACE_SECONDS) = (Inr c1, s1)
       \<and> cr_count c1 \<le> burstMax (user_limits config u)
       \<and> fst (ev s1 (user_minute_key config now u)
          (asPositiveInt (minuteWindowSeconds config + COUNTER_TTL_GRACE_SECONDS))) = Inl e
      \<longrightarrow> fst (checkUserTurnQuota ev config now s u)
            = failOpenDecision (getTierForUser u config))
   \<and> (incrementCounter ev s (user_burst_key config now u)
          (burstWindowSeconds config + COUNTER_TTL_GRACE_SECONDS) = (Inr c1, s1)
       \<and> cr_count c1 \<le> burstMax (user_limits config u)
       \<and> incrementCounter ev s1 (user_minute_key config now u)
          (minuteWindowSeconds config + COUNTER_TTL_GRACE_SECONDS) = (Inr c2, s2)
       \<and> cr_count c2 \<le> minuteMax (user_limits config u)
       \<and> fst (ev s2 (user_daily_key now u)
          (asPositiveInt (counterTtlSeconds (getUtcDailyWindow now)))) = Inl e
      \<longrightarrow> fst (checkUserTurnQuota ev config now s u)
            = failOpenDecision (getTierForUser u config))
   \<and> (fst (checkChatSpamLimit_try ev config now s chat u) = Inl e
      \<longrightarrow> fst (checkChatSpamLimit ev config now s chat u)
            = failOpenDecision (getTierForUser u config))
   \<and> (fst (checkUserTurnQuota_try ev config now s u) = Inl e
      \<longrightarrow> fst (checkUserTurnQuota ev config now s u)
            = failOpenDecision (getTierForUser u config))
   \<and> rl_allowed (failOpenDecision t) \<and> rl_reason (failOpenDecision t) = RateLimitStorageError
   \<and> reason_text (rl_reason (failOpenDecision t)) = ''rate_limit_storage_error''"
proof -
  have fo: "rl_allowed (failOpenDecision t) \<and> rl_reason (failOpenDecision t) = RateLimitStorageError
      \<and> reason_text (rl_reason (failOpenDecision t)) = ''rate_limit_storage_error''"
    by (simp add: failOpenDecision_def)
  show ?thesis
    using chat_store_raises [of ev s config now chat e u, THEN chat_try_raises]
      user_store_raises_burst [of ev s config now u e, THEN user_try_raises]
      user_store_raises_minute [of ev s config now u c1 s1 e, THEN user_try_raises]
      user_store_raises_daily [of ev s config now u c1 s1 c2 s2 e, THEN user_try_raises]
      chat_try_raises [of ev config now s chat u e]
      user_try_raises [of ev config now s u e] fo
    by blast
qed


theorem C4_fail_open_on_storage_error_witness:
  "fst (checkChatSpamLimit failing_eval default_config noon () ''5'' ''2001'')
     = \<lparr>rl_allowed = True, rl_reason = RateLimitStorageError, retryAfterSeconds = 0,
        rl_tier = Free, dailyUsed = None, dailyLimit = None, resetsAtUtc = None\<rparr>
   \<and> fst (checkUserTurnQuota failing_eval default_config noon () ''2001'')
     = \<lparr>rl_allowed = True, rl_reason = RateLimitStorageError, retryAfterSeconds = 0,
        rl_tier = Free, dailyUsed = None, dailyLimit = None, resetsAtUtc = None\<rparr>
   \<and> fst (checkUserTurnQuota flaky_eval default_config noon (empty_store noon) ''2001'')
     = \<lparr>rl_allowed = True, rl_reason = RateLimitStorageError, retryAfterSeconds = 0,
        rl_tier = Free, dailyUsed = None, dailyLimit = None, resetsAtUtc = None\<rparr>"
proof -
  let ?first = "incrementCounter flaky_eval (empty_store noon)
                  (user_burst_key default_config noon ''2001'')
                  (burstWindowSeconds default_config + COUNTER_TTL_GRACE_SECONDS)"
  have c1: "fst ?first = Inr \<lparr>cr_count = 1, cr_ttlSeconds = 8\<rparr>"
    by code_simp
  then have first: "?first = (Inr \<lparr>cr_count = 1, cr_ttlSeconds = 8\<rparr>, snd ?first)"
    by (metis prod.collapse)
  have within: "cr_count \<lparr>cr_count = 1, cr_ttlSeconds = 8\<rparr>
                  \<le> burstMax (user_limits default_config ''2001'')"
    by code_simp
  have down: "fst (flaky_eval (snd ?first) (user_minute_key default_config noon ''2001'')
               (asPositiveInt (minuteWindowSeconds default_config + COUNTER_TTL_GRACE_SECONDS)))
             = Inl (Exn ''redis eval failed'')"
    by code_simp
  have third: "fst (checkUserTurnQuota flaky_eval default_config noon (empty_store noon) ''2001'')
                 = failOpenDecision (getTierForUser ''2001'' default_config)"
    using C4_fail_open_on_storage_error
      [of flaky_eval "empty_store noon" default_config noon "''5''" "Exn ''redis eval failed''"
          "''2001''" "\<lparr>cr_count = 1, cr_ttlSeconds = 8\<rparr>" "snd ?first",
       THEN conjunct2, THEN conjunct2, THEN conjunct1]
      first within down
    by blast
  show ?thesis
    using C4_fail_open_on_storage_error
      [of failing_eval "()" default_config noon "''5''" "Exn ''redis eval failed''" "''2001''"]
      third
    by (simp add: failing_eval_def failOpenDecision_def getTierForUser_def default_config_def)
qed


lemma after_burst_frame:
  "eval_keys (after_burst config now u r) = eval_keys r @ [user_burst_key config now u]"
  "entries (after_burst config now u r) (user_minute_key config now u)
     = entries r (user_minute_key config now u)"
  "entries (after_burst config now u r) (user_daily_key now u) = entries r (user_daily_key now u)"
  "live_value (after_burst config now u r) (user_minute_key config now u)
     = live_value r (user_minute_key config now u)"
  "live_value (after_burst config now u r) (user_daily_key now u)
     = live_value r (user_daily_key now u)"
  "live_value (after_burst config now u r) (user_burst_key config now u)
     = Some (case live_value r (user_burst_key config now u) of None \<Rightarrow> 1 | Some v \<Rightarrow> v + 1)"
  unfolding after_burst_def
  using user_keys_distinct [of config now u]
  by (simp_all add: after_incr_frame after_incr_other after_incr_same asPositiveInt_pos)

lemma after_minute_frame:
  "eval_keys (after_minute config now u r)
     = eval_keys r @ [user_burst_key config now u, user_minute_key config now u]"
  "entries (after_minute config now u r) (user_daily_key now u) = entries r (user_daily_key now u)"
  "live_value (after_minute config now u r) (user_daily_key now u)
     = live_value r (user_daily_key now u)"
  "live_value (after_minute config now u r) (user_minute_key config now u)
     = Some (case live_value r (user_minute_key config now u) of None \<Rightarrow> 1 | Some v \<Rightarrow> v + 1)"
  "live_value (after_minute config now u r) (user_burst_key config now u)
     = Some (case live_value r (user_burst_key config now u) of None \<Rightarrow> 1 | Some v \<Rightarrow> v + 1)"
  unfolding after_minute_def
  using user_keys_distinct [of config now u] user_keys_distinct(1) [of config now u, symmetric]
  by (simp_all add: after_incr_frame after_incr_other after_incr_same asPositiveInt_pos
        after_burst_frame)

lemma after_daily_frame:
  "eval_keys (after_daily config now u r)
     = eval_keys r @ [user_burst_key config now u, user_minute_key config now u,
                      user_daily_key now u]"
  "live_value (after_daily config now u r) (user_daily_key now u)
     = Some (case live_value r (user_daily_key now u) of None \<Rightarrow> 1 | Some v \<Rightarrow> v + 1)"
  "live_value (after_daily config now u r) (user_minute_key config now u)
     = Some (case live_value r (user_minute_key config now u) of None \<Rightarrow> 1 | Some v \<Rightarrow> v + 1)"
  "live_value (after_daily config now u r) (user_burst_key config now u)
     = Some (case live_value r (user_burst_key config now u) of None \<Rightarrow> 1 | Some v \<Rightarrow> v + 1)"
  unfolding after_daily_def
  using user_keys_distinct [of config now u] user_keys_distinct(2,3) [of config now u, symmetric]
  by (simp_all add: after_incr_frame after_incr_other after_incr_same asPositiveInt_pos
        after_minute_frame)

text \<open>
  C10: one call of \<open>checkUserTurnQuota\<close> increments and checks burst, then minute, then
  daily, and stops at the first window that is exceeded. Denied by the burst window: one
  script call, on the burst key, and the minute and daily entries are as before. Denied
  by the minute window: two calls, burst then minute, and the daily entry is as before.
  Otherwise three calls in the order burst, minute, daily; the daily counter is
  incremented whether the decision is allowed or \<open>user_daily\<close>, and \<open>dailyUsed\<close> is the
  new count, which in the denied case is above \<open>dailyLimit\<close>.
\<close>

theorem C10_quota_short_circuit:
  "(burstMax (user_limits config u) < next_count r (user_burst_key config now u)
      \<longrightarrow> rl_reason (fst (checkUserTurnQuota INCR_WITH_TTL_LUA config now r u)) = UserBurst
        \<and> \<not> rl_allowed (fst (checkUserTurnQuota INCR_WITH_TTL_LUA config now r u))
        \<and> eval_keys (snd (checkUserTurnQuota INCR_WITH_TTL_LUA config now r u))
            = eval_keys r @ [user_burst_key config now u]
        \<and> entries (snd (checkUserTurnQuota INCR_WITH_TTL_LUA config now r u))
              (user_minute_key config now u) = entries r (user_minute_key config now u)
        \<and> entries (snd (checkUserTurnQuota INCR_WITH_TTL_LUA config now r u))
              (user_daily_key now u) = entries r (user_daily_key now u))
   \<and> (next_count r (user_burst_key config now u) \<le> burstMax (user_limits config u)
       \<and> minuteMax (user_limits config u) < next_count r (user_minute_key config now u)
      \<longrightarrow> rl_reason (fst (checkUserTurnQuota INCR_WITH_TTL_LUA config now r u)) = UserMinute
        \<and> \<not> rl_allowed (fst (checkUserTurnQuota INCR_WITH_TTL_LUA config now r u))
        \<and> eval_keys (snd (checkUserTurnQuota INCR_WITH_TTL_LUA config now r u))
            = eval_keys r @ [user_burst_key config now u, user_minute_key config now u]
        \<and> entries (snd (checkUserTurnQuota INCR_WITH_TTL_LUA config now r u))
              (user_daily_key now u) = entries r (user_daily_key now u))
   \<and> (next_count r (user_burst_key config now u) \<le> burstMax (user_limits config u)
       \<and> next_count r (user_minute_key config now u) \<le> minuteMax (user_limits config u)
      \<longrightarrow> eval_keys (snd (checkUserTurnQuota INCR_WITH_TTL_LUA config now r u))
            = eval_keys r @ [user_burst_key config now u, user_minute_key config now u,
                             user_daily_key now u]
        \<and> live_value (snd (checkUserTurnQuota INCR_WITH_TTL_LUA config now r u))
              (user_daily_key now u)
            = Some (case live_value r (user_daily_key now u) of None \<Rightarrow> 1 | Some v \<Rightarrow> v + 1)
        \<and> dailyUsed (fst (checkUserTurnQuota INCR_WITH_TTL_LUA config now r u))
            = Some (next_count r (user_daily_key now u))
        \<and> dailyLimit (fst (checkUserTurnQuota INCR_WITH_TTL_LUA config now r u))
            = Some (dailyMax (user_limits config u))
        \<and> rl_reason (fst (checkUserTurnQuota INCR_WITH_TTL_LUA config now r u))
            = (if dailyMax (user_limits config u) < next_count r (user_daily_key now u)
               then UserDaily else Allowed)
        \<and> (rl_allowed (fst (checkUserTurnQuota INCR_WITH_TTL_LUA config now r u))
            \<longleftrightarrow> next_count r (user_daily_key now u) \<le> dailyMax (user_limits config u)))"
proof (intro conjI impI)
  assume b: "burstMax (user_limits config u) < next_count r (user_burst_key config now u)"
  note d = quota_lua_burst_denied [OF b]
  show "rl_reason (fst (checkUserTurnQuota INCR_WITH_TTL_LUA config now r u)) = UserBurst"
    by (rule d(1))
  show "\<not> rl_allowed (fst (checkUserTurnQuota INCR_WITH_TTL_LUA config now r u))"
    by (rule d(2))
  show "eval_keys (snd (checkUserTurnQuota INCR_WITH_TTL_LUA config now r u))
            = eval_keys r @ [user_burst_key config now u]"
    unfolding d(3) by (rule after_burst_frame)
  show "entries (snd (checkUserTurnQuota INCR_WITH_TTL_LUA config now r u))
              (user_minute_key config now u) = entries r (user_minute_key config now u)"
    unfolding d(3) by (rule after_burst_frame)
  show "entries (snd (checkUserTurnQuota INCR_WITH_TTL_LUA config now r u))
              (user_daily_key now u) = entries r (user_daily_key now u)"
    unfolding d(3) by (rule after_burst_frame)
next
  assume "next_count r (user_burst_key config now u) \<le> burstMax (user_limits config u)
       \<and> minuteMax (user_limits config u) < next_count r (user_minute_key config now u)"
  then have b: "next_count r (user_burst_key config now u) \<le> burstMax (user_limits config u)"
    and m: "minuteMax (user_limits config u) < next_count r (user_minute_key config now u)"
    by simp_all
  note d = quota_lua_minute_denied [OF b m]
  show "rl_reason (fst (checkUserTurnQuota INCR_WITH_TTL_LUA config now r u)) = UserMinute"
    by (rule d(1))
  show "\<not> rl_allowed (fst (checkUserTurnQuota INCR_WITH_TTL_LUA config now r u))"
    by (rule d(2))
  show "eval_keys (snd (checkUserTurnQuota INCR_WITH_TTL_LUA config now r u))
            = eval_keys r @ [user_burst_key config now u, user_minute_key config now u]"
    unfolding d(3) by (rule after_minute_frame)
  show "entries (snd (checkUserTurnQuota INCR_WITH_TTL_LUA config now r u))
              (user_daily_key now u) = entries r (user_daily_key now u)"
    unfolding d(3) by (rule after_minute_frame)
next
  assume "next_count r (user_burst_key config now u) \<le> burstMax (user_limits config u)
       \<and> next_count r (user_minute_key config now u) \<le> minuteMax (user_limits config u)"
  then have b: "next_count r (user_burst_key config now u) \<le> burstMax (user_limits config u)"
    and m: "next_count r (user_minute_key config now u) \<le> minuteMax (user_limits config u)"
    by simp_all
  note d = quota_lua_daily_reached [OF b m]
  show "eval_keys (snd (checkUserTurnQuota INCR_WITH_TTL_LUA config now r u))
            = eval_keys r @ [user_burst_key config now u, user_minute_key config now u,
                             user_daily_key now u]"
    unfolding d(5) by (rule after_daily_frame)
  show "live_value (snd (checkUserTurnQuota INCR_WITH_TTL_LUA config now r u))
              (user_daily_key now u)
            = Some (case live_value r (user_daily_key now u) of None \<Rightarrow> 1 | Some v \<Rightarrow> v + 1)"
    unfolding d(5) by (rule after_daily_frame)
  show "dailyUsed (fst (checkUserTurnQuota INCR_WITH_TTL_LUA config now r u))
            = Some (next_count r (user_daily_key now u))"
    by (rule d(3))
  show "dailyLimit (fst (checkUserTurnQuota INCR_WITH_TTL_LUA config now r u))
            = Some (dailyMax (user_limits config u))"
    by (rule d(4))
  show "rl_reason (fst (checkUserTurnQuota INCR_WITH_TTL_LUA config now r u))
            = (if dailyMax (user_limits config u) < next_count r (user_daily_key now u)
               then UserDaily else Allowed)"
    by (rule d(1))
  show "rl_allowed (fst (checkUserTurnQuota INCR_WITH_TTL_LUA config now r u))
            \<longleftrightarrow> next_count r (user_daily_key now u) \<le> dailyMax (user_limits config u)"
    by (rule d(2))
qed


theorem C10_quota_short_circuit_witness:
  "rl_reason (fst (checkUserTurnQuota INCR_WITH_TTL_LUA default_config noon
                     store_after_three_turns ''2001'')) = UserBurst
   \<and> eval_keys (snd (checkUserTurnQuota INCR_WITH_TTL_LUA default_config noon
                     store_after_three_turns ''2001''))
       = eval_keys store_after_three_turns @ [''rl:v1:user:2001:b:590587200'']
   \<and> entries (snd (checkUserTurnQuota INCR_WITH_TTL_LUA default_config noon
                     store_after_three_turns ''2001'')) ''rl:v1:user:2001:m:29529360''
       = entries store_after_three_turns ''rl:v1:user:2001:m:29529360''
   \<and> entries (snd (checkUserTurnQuota INCR_WITH_TTL_LUA default_config noon
                     store_after_three_turns ''2001'')) ''rl:v1:user:2001:d:20260222''
       = entries store_after_three_turns ''rl:v1:user:2001:d:20260222''
   \<and> rl_reason (fst (checkUserTurnQuota INCR_WITH_TTL_LUA tight_daily_config noon
                     store_after_one_turn ''2001'')) = UserDaily
   \<and> dailyUsed (fst (checkUserTurnQuota INCR_WITH_TTL_LUA tight_daily_config noon
                     store_after_one_turn ''2001'')) = Some 2
   \<and> dailyLimit (fst (checkUserTurnQuota INCR_WITH_TTL_LUA tight_daily_config noon
                     store_after_one_turn ''2001'')) = Some 1"
proof -
  have keys: "user_burst_key default_config noon ''2001'' = ''rl:v1:user:2001:b:590587200''"
    "user_minute_key default_config noon ''2001'' = ''rl:v1:user:2001:m:29529360''"
    "user_daily_key noon ''2001'' = ''rl:v1:user:2001:d:20260222''"
    by code_simp+
  have over: "burstMax (user_limits default_config ''2001'')
                < next_count store_after_three_turns (user_burst_key default_config noon ''2001'')"
    by code_simp
  have under: "next_count store_after_one_turn (user_burst_key tight_daily_config noon ''2001'')
                 \<le> burstMax (user_limits tight_daily_config ''2001'')"
    "next_count store_after_one_turn (user_minute_key tight_daily_config noon ''2001'')
                 \<le> minuteMax (user_limits tight_daily_config ''2001'')"
    by code_simp+
  have daily: "next_count store_after_one_turn ''rl:v1:user:2001:d:20260222'' = 2"
    "dailyMax (user_limits tight_daily_config ''2001'') = 1"
    by code_simp+
  show ?thesis
    using C10_quota_short_circuit [of default_config "''2001''" store_after_three_turns noon]
      C10_quota_short_circuit [of tight_daily_config "''2001''" store_after_one_turn noon]
      over under
    by (simp add: keys daily)
qed















section \<open>Theorems: response policy\<close>

lemma js_trim_trim_end: "js_trim s = trim_end (dropWhile is_js_space s)"
  by (simp add: js_trim_def trim_end_def)

lemma trim_end_Nil: "trim_end s = [] \<longleftrightarrow> list_all is_js_space s"
  by (simp add: trim_end_def dropWhile_eq_Nil_conv list_all_iff)

lemma trim_end_Cons:
  "trim_end (c # s) = (if is_js_space c \<and> list_all is_js_space s then [] else c # trim_end s)"
  by (auto simp: trim_end_def dropWhile_append list_all_iff dropWhile_eq_Nil_conv)

lemma js_trim_Nil: "js_trim s = [] \<longleftrightarrow> list_all is_js_space s"
proof -
  have "list_all is_js_space (dropWhile is_js_space s) \<longleftrightarrow> list_all is_js_space s"
    by (induction s) simp_all
  then show ?thesis by (simp add: js_trim_trim_end trim_end_Nil)
qed

subsection \<open>Trimming and the word patterns\<close>

lemma space_not_word: "is_js_space c \<Longrightarrow> \<not> is_word_char c"
  by (auto simp: is_js_space_def is_word_char_def)

lemma space_lower: "is_js_space c \<Longrightarrow> lower_ascii c = c"
  by (auto simp: is_js_space_def lower_ascii_def)

lemma word_at_Cons_0: "word_at (c # s) 0 = is_word_char c"
  by (simp add: word_at_def)

lemma word_at_Cons_Suc: "word_at (c # s) (int (Suc j)) = word_at s (int j)"
  by (auto simp: word_at_def nat_add_distrib)

lemma word_at_neg: "word_at s (- 1) = False"
  by (simp add: word_at_def)

lemma word_boundary_Cons:
  assumes "\<not> is_word_char c"
  shows "word_boundary (c # s) (Suc j) = word_boundary s j"
proof (cases j)
  case 0
  then show ?thesis
    using assms word_at_Cons_Suc [of c s 0]
    by (simp add: word_boundary_def word_at_Cons_0 word_at_neg)
next
  case (Suc k)
  then show ?thesis
    using word_at_Cons_Suc [of c s k] word_at_Cons_Suc [of c s "Suc k"]
    by (simp add: word_boundary_def)
qed

lemma matches_word_at_Cons_Suc:
  assumes "\<not> is_word_char c"
  shows "matches_word_at pat (c # s) (Suc j) = matches_word_at pat s j"
  using word_boundary_Cons [OF assms, of s j] word_boundary_Cons [OF assms, of s "j + length pat"]
  by (simp add: matches_word_at_def)

lemma matches_word_at_Cons_0:
  assumes "is_js_space c" and "pat \<noteq> []" and "is_word_char (hd pat)"
  shows "\<not> matches_word_at pat (c # s) 0"
proof
  assume m: "matches_word_at pat (c # s) 0"
  from assms(2) obtain p ps where pat: "pat = p # ps" by (cases pat) auto
  from m pat have "lower_ascii c = p" by (simp add: matches_word_at_def)
  with assms(1,3) pat show False using space_not_word space_lower by auto
qed

lemma ex_match_Cons:
  assumes "is_js_space c" and "pat \<noteq> []" and "is_word_char (hd pat)"
  shows "(\<exists>i. matches_word_at pat (c # s) i) \<longleftrightarrow> (\<exists>j. matches_word_at pat s j)"
proof
  assume "\<exists>i. matches_word_at pat (c # s) i"
  then obtain i where i: "matches_word_at pat (c # s) i" ..
  show "\<exists>j. matches_word_at pat s j"
  proof (cases i)
    case 0
    with i matches_word_at_Cons_0 [OF assms] show ?thesis by simp
  next
    case (Suc j)
    with i matches_word_at_Cons_Suc [of c pat s j] assms(1) space_not_word show ?thesis by auto
  qed
next
  assume "\<exists>j. matches_word_at pat s j"
  then obtain j where "matches_word_at pat s j" ..
  then have "matches_word_at pat (c # s) (Suc j)"
    using matches_word_at_Cons_Suc [of c pat s j] assms(1) space_not_word by auto
  then show "\<exists>i. matches_word_at pat (c # s) i" ..
qed

lemma word_at_snoc:
  assumes "\<not> is_word_char c"
  shows "word_at (s @ [c]) k = word_at s k"
proof (cases "0 \<le> k \<and> k < int (length s)")
  case True
  then have "nat k < length s" by linarith
  then have "(s @ [c]) ! nat k = s ! nat k" by (simp add: nth_append)
  with True show ?thesis by (simp add: word_at_def)
next
  case False
  show ?thesis
  proof (cases "k = int (length s)")
    case True
    then show ?thesis using assms by (simp add: word_at_def)
  next
    case ne: False
    with False show ?thesis by (auto simp: word_at_def)
  qed
qed

lemma word_boundary_snoc:
  "\<not> is_word_char c \<Longrightarrow> word_boundary (s @ [c]) i = word_boundary s i"
  by (simp add: word_boundary_def word_at_snoc)

lemma matches_word_at_snoc:
  assumes "is_js_space c" and "pat \<noteq> []" and "is_word_char (last pat)"
  shows "matches_word_at pat (s @ [c]) i = matches_word_at pat s i"
proof (cases "i + length pat \<le> length s")
  case True
  then have "take (length pat) (drop i (s @ [c])) = take (length pat) (drop i s)" by simp
  with True show ?thesis
    using assms(1) space_not_word by (simp add: matches_word_at_def word_boundary_snoc)
next
  case False
  have "\<not> matches_word_at pat (s @ [c]) i"
  proof
    assume m: "matches_word_at pat (s @ [c]) i"
    then have len: "i + length pat = Suc (length s)" using False by (simp add: matches_word_at_def)
    from m have eq: "map lower_ascii (take (length pat) (drop i (s @ [c]))) = pat"
      by (simp add: matches_word_at_def)
    from len assms(2) have i: "i \<le> length s" by (cases pat) auto
    from len i have seg: "take (length pat) (drop i (s @ [c])) = drop i s @ [c]" by simp
    have "pat = map lower_ascii (drop i s @ [c])" using eq [unfolded seg] by (rule sym)
    then have "last pat = lower_ascii c" by simp
    with assms(1,3) show False using space_not_word space_lower by auto
  qed
  with False show ?thesis by (simp add: matches_word_at_def)
qed

lemma ex_match_dropWhile:
  assumes "pat \<noteq> []" and "is_word_char (hd pat)"
  shows "(\<exists>i. matches_word_at pat (dropWhile is_js_space s) i) \<longleftrightarrow> (\<exists>i. matches_word_at pat s i)"
  by (induction s) (simp_all add: ex_match_Cons [OF _ assms])

lemma ex_match_trim_end:
  assumes "pat \<noteq> []" and "is_word_char (last pat)"
  shows "(\<exists>i. matches_word_at pat (trim_end s) i) \<longleftrightarrow> (\<exists>i. matches_word_at pat s i)"
proof (induction s rule: rev_induct)
  case Nil
  show ?case by (simp add: trim_end_def)
next
  case (snoc c s)
  show ?case
  proof (cases "is_js_space c")
    case True
    then have "trim_end (s @ [c]) = trim_end s" by (simp add: trim_end_def)
    with snoc True show ?thesis by (simp add: matches_word_at_snoc [OF _ assms])
  next
    case False
    then have "trim_end (s @ [c]) = s @ [c]" by (simp add: trim_end_def)
    then show ?thesis by simp
  qed
qed

lemma test_word_pattern_ex: "test_word_pattern pat s \<longleftrightarrow> (\<exists>i. matches_word_at pat s i)"
proof
  assume "test_word_pattern pat s"
  then show "\<exists>i. matches_word_at pat s i" by (auto simp: test_word_pattern_def list_ex_iff)
next
  assume "\<exists>i. matches_word_at pat s i"
  then obtain i where i: "matches_word_at pat s i" ..
  then have "i + length pat \<le> length s" by (simp add: matches_word_at_def)
  then have "i < Suc (length s)" by arith
  then have "i \<in> set [0..<Suc (length s)]" by (simp del: upt_Suc)
  with i show "test_word_pattern pat s"
    unfolding test_word_pattern_def list_ex_iff by blast
qed

lemma test_word_pattern_trim:
  assumes "pat \<noteq> []" and "is_word_char (hd pat)" and "is_word_char (last pat)"
  shows "test_word_pattern pat (js_trim s) = test_word_pattern pat s"
  by (simp add: test_word_pattern_ex js_trim_trim_end ex_match_trim_end [OF assms(1,3)]
      ex_match_dropWhile [OF assms(1,2)])

lemma hasPlainTextApprovalRequest_trim:
  "hasPlainTextApprovalRequest (js_trim s) = hasPlainTextApprovalRequest s"
proof -
  have "test_word_pattern pat (js_trim s) = test_word_pattern pat s"
    if "pat \<in> set PLAIN_TEXT_APPROVAL_PATTERNS" for pat
  proof -
    from that have "pat \<noteq> [] \<and> is_word_char (hd pat) \<and> is_word_char (last pat)"
      by (auto simp: PLAIN_TEXT_APPROVAL_PATTERNS_def is_word_char_def)
    then show ?thesis by (simp add: test_word_pattern_trim)
  qed
  then show ?thesis by (auto simp: hasPlainTextApprovalRequest_def list_ex_iff)
qed

subsection \<open>The normalized text is the words of the raw text, joined by single spaces\<close>

lemma list_all_space_dropWhile:
  "list_all is_js_space (dropWhile is_js_space s) \<longleftrightarrow> list_all is_js_space s"
  by (induction s) simp_all

lemma collapse_ws_nonspace_prefix:
  "\<forall>x\<in>set w. \<not> is_js_space x \<Longrightarrow> collapse_ws (w @ x) = w @ collapse_ws x"
  by (induction w) simp_all

lemma trim_end_append_nonspace:
  assumes "w \<noteq> []" and "\<not> is_js_space (last w)"
  shows "trim_end (w @ x) = w @ trim_end x"
  using assms
  by (cases w rule: rev_cases) (auto simp: trim_end_def dropWhile_append dropWhile_eq_Nil_conv)

lemma dropWhile_trim_end:
  "dropWhile is_js_space (trim_end x) = trim_end (dropWhile is_js_space x)"
proof (induction x)
  case Nil
  show ?case by (simp add: trim_end_def)
next
  case (Cons c x)
  show ?case
  proof (cases "is_js_space c")
    case False
    then show ?thesis by (simp add: trim_end_Cons)
  next
    case True
    show ?thesis
    proof (cases "list_all is_js_space x")
      case all: True
      from True all have a: "trim_end (c # x) = []" by (simp add: trim_end_Cons)
      from True all have b: "dropWhile is_js_space (c # x) = []" by (simp add: list_all_iff)
      have e: "trim_end [] = []" by (simp add: trim_end_def)
      have "dropWhile is_js_space (trim_end (c # x)) = []" by (simp add: a)
      moreover have "trim_end (dropWhile is_js_space (c # x)) = []" by (simp only: b e)
      ultimately show ?thesis by simp
    next
      case False
      with True Cons show ?thesis by (simp add: trim_end_Cons)
    qed
  qed
qed

lemma list_all_space_collapse_ws:
  "list_all is_js_space (collapse_ws t) \<longleftrightarrow> list_all is_js_space t"
proof (induction t rule: collapse_ws.induct)
  case 1
  show ?case by simp
next
  case (2 c cs)
  show ?case
  proof (cases "is_js_space c")
    case True
    have "is_js_space CHR '' ''" by (simp add: is_js_space_def)
    with True 2 show ?thesis by (simp add: list_all_space_dropWhile)
  next
    case False
    then show ?thesis by simp
  qed
qed

lemma js_trim_hd:
  assumes "js_trim s \<noteq> []"
  shows "\<not> is_js_space (hd (js_trim s))"
proof -
  let ?u = "dropWhile is_js_space s"
  from assms have "\<not> list_all is_js_space s" by (simp add: js_trim_Nil)
  then have u: "?u \<noteq> []" by (simp add: list_all_iff)
  then obtain c cs where ucs: "?u = c # cs" by (cases ?u) auto
  from u have "\<not> is_js_space (hd ?u)" by (rule hd_dropWhile)
  with ucs have c: "\<not> is_js_space c" by simp
  then have "trim_end (c # cs) = c # trim_end cs" by (simp add: trim_end_Cons)
  with ucs c show ?thesis by (simp add: js_trim_trim_end)
qed

lemma js_trim_space_Cons: "is_js_space d \<Longrightarrow> js_trim (d # r) = js_trim r"
  by (simp add: js_trim_def)

lemma normalized_rest:
  assumes "r = [] \<or> is_js_space (hd r)"
  shows "trim_end (collapse_ws (trim_end r))
           = (if list_all is_js_space r then []
              else CHR '' '' # js_trim (collapse_ws (js_trim r)))"
proof (cases "list_all is_js_space r")
  case True
  then have r: "trim_end r = []" by (simp add: trim_end_Nil)
  have e: "trim_end [] = []" by (simp add: trim_end_def)
  show ?thesis by (simp only: r e True collapse_ws.simps if_True)
next
  case False
  with assms obtain d r' where r: "r = d # r'" and d: "is_js_space d" by (cases r) auto
  from False r d have r': "\<not> list_all is_js_space r'" by simp
  let ?t = "js_trim r"
  from False have t: "?t \<noteq> []" by (simp add: js_trim_Nil)
  then obtain h tl where ht: "?t = h # tl" by (cases ?t) auto
  from js_trim_hd [OF t] ht have h: "\<not> is_js_space h" by simp
  from r d r' have "trim_end r = d # trim_end r'" by (simp add: trim_end_Cons)
  moreover have "dropWhile is_js_space (trim_end r') = ?t"
    using r d by (simp add: dropWhile_trim_end js_trim_trim_end)
  ultimately have c1: "collapse_ws (trim_end r) = CHR '' '' # collapse_ws ?t"
    using d by simp
  from ht h have "\<not> list_all is_js_space ?t" by simp
  then have "\<not> list_all is_js_space (collapse_ws ?t)" by (simp add: list_all_space_collapse_ws)
  then have c2: "trim_end (CHR '' '' # collapse_ws ?t) = CHR '' '' # trim_end (collapse_ws ?t)"
    by (simp add: trim_end_Cons)
  from ht h have "dropWhile is_js_space (collapse_ws ?t) = collapse_ws ?t" by simp
  then have c3: "js_trim (collapse_ws ?t) = trim_end (collapse_ws ?t)"
    by (simp add: js_trim_trim_end)
  from False c1 c2 c3 show ?thesis by simp
qed

lemma js_words_Nil: "js_words s = [] \<longleftrightarrow> list_all is_js_space s"
proof (cases "dropWhile is_js_space s")
  case Nil
  have "js_words s = []" by (subst js_words.simps) (simp only: Nil list.case)
  moreover from Nil have "list_all is_js_space s" by (simp add: list_all_iff)
  ultimately show ?thesis by simp
next
  case (Cons c cs)
  have "js_words s \<noteq> []" by (subst js_words.simps) (simp only: Cons list.case list.distinct not_False_eq_True)
  moreover from Cons have "dropWhile is_js_space s \<noteq> []" by simp
  then have "\<not> list_all is_js_space s" by (simp add: list_all_iff)
  ultimately show ?thesis by simp
qed

lemma join_Cons: "join sep (x # xs) = x @ (if xs = [] then [] else sep @ join sep xs)"
  by (cases xs) simp_all

lemma normalized_words: "js_trim (collapse_ws (js_trim s)) = join '' '' (js_words s)"
proof (induction s rule: js_words.induct)
  case (1 s)
  show ?case
  proof (cases "dropWhile is_js_space s")
    case Nil
    then have "list_all is_js_space s" by (simp add: list_all_iff)
    then have t: "js_trim s = []" and w: "js_words s = []"
      by (simp_all add: js_trim_Nil js_words_Nil)
    have e: "js_trim [] = []" by (simp add: js_trim_def)
    show ?thesis by (simp only: t w e collapse_ws.simps join.simps)
  next
    case (Cons c cs)
    let ?w = "c # takeWhile (\<lambda>x. \<not> is_js_space x) cs"
    let ?r = "dropWhile (\<lambda>x. \<not> is_js_space x) cs"
    from Cons have "dropWhile is_js_space s \<noteq> []" by simp
    then have "\<not> is_js_space (hd (dropWhile is_js_space s))" by (rule hd_dropWhile)
    with Cons have c: "\<not> is_js_space c" by simp
    have w_all: "\<forall>x\<in>set ?w. \<not> is_js_space x"
      using c by (auto dest: set_takeWhileD)
    have w_ne: "?w \<noteq> []" by simp
    have w_last: "\<not> is_js_space (last ?w)"
      using w_all last_in_set [OF w_ne] by blast
    have split: "c # cs = ?w @ ?r" by simp
    have r_hd: "?r = [] \<or> is_js_space (hd ?r)"
      using hd_dropWhile [of "\<lambda>x. \<not> is_js_space x" cs] by auto
    have words: "js_words s = ?w # js_words ?r"
      by (subst js_words.simps) (simp only: Cons list.case)
    have "js_trim s = trim_end (?w @ ?r)"
      using Cons split by (simp only: js_trim_trim_end)
    then have t1: "js_trim s = ?w @ trim_end ?r"
      by (simp only: trim_end_append_nonspace [OF w_ne w_last])
    have t2: "collapse_ws (?w @ trim_end ?r) = ?w @ collapse_ws (trim_end ?r)"
      by (rule collapse_ws_nonspace_prefix [OF w_all])
    have "dropWhile is_js_space (?w @ y) = ?w @ y" for y using c by simp
    then have t3: "js_trim (?w @ y) = ?w @ trim_end y" for y
      by (simp only: js_trim_trim_end trim_end_append_nonspace [OF w_ne w_last])
    have "js_trim (collapse_ws (js_trim s)) = ?w @ trim_end (collapse_ws (trim_end ?r))"
      by (simp only: t1 t2 t3)
    also have "\<dots> = ?w @ (if list_all is_js_space ?r then []
                              else CHR '' '' # js_trim (collapse_ws (js_trim ?r)))"
      by (simp only: normalized_rest [OF r_hd])
    also have "\<dots> = ?w @ (if js_words ?r = [] then [] else '' '' @ join '' '' (js_words ?r))"
      using 1 [OF Cons] by (simp add: js_words_Nil)
    also have "\<dots> = join '' '' (js_words s)"
      by (simp only: words join_Cons)
    finally show ?thesis .
  qed
qed

subsection \<open>The forcing rule\<close>

lemma status_prefix:
  "take 18 (buildApprovedExecutionStatusText results) = ''Approval received.''"
proof (cases results)
  case Nil
  then show ?thesis by (simp add: buildApprovedExecutionStatusText_def)
next
  case (Cons p ps)
  then show ?thesis by (simp add: buildApprovedExecutionStatusText_def)
qed

lemma status_length: "18 \<le> length (buildApprovedExecutionStatusText results)"
  by (cases results) (simp_all add: buildApprovedExecutionStatusText_def)

lemma turn_text_empty: "length (turn_text inp) = 0 \<longleftrightarrow> raw_empty_after_trim (rawText inp)"
  by (cases "rawText inp") (simp_all add: turn_text_def raw_empty_after_trim_def js_trim_Nil)

lemma no_reask_in_empty: "\<not> hasPlainTextApprovalRequest []"
  by (simp add: hasPlainTextApprovalRequest_def PLAIN_TEXT_APPROVAL_PATTERNS_def
      test_word_pattern_def matches_word_at_def)

lemma turn_text_reask:
  "hasPlainTextApprovalRequest (turn_text inp) \<longleftrightarrow> raw_has_approval_reask (rawText inp)"
proof (cases "rawText inp")
  case None
  then show ?thesis
    by (simp add: turn_text_def raw_has_approval_reask_def no_reask_in_empty)
next
  case (Some s)
  then show ?thesis
    using hasPlainTextApprovalRequest_trim [of s]
    by (simp add: turn_text_def raw_has_approval_reask_def hasPlainTextApprovalRequest_def)
qed

lemma turn_text_trivial: "hasTrivialCompletion inp \<longleftrightarrow> raw_is_trivial_completion (rawText inp)"
proof (cases "rawText inp")
  case None
  then show ?thesis
    by (simp add: hasTrivialCompletion_def turn_text_def raw_is_trivial_completion_def js_trim_def)
next
  case (Some s)
  then show ?thesis
    by (simp add: hasTrivialCompletion_def turn_text_def raw_is_trivial_completion_def
        normalized_words Let_def)
qed

text \<open>
  C5: \<open>forcedApprovedStatus\<close> is true exactly when the approval was granted and the raw
  text, as the model returned it, is absent or all white space (empty after trimming), or
  contains one of the five re-ask patterns as whole words, or is a trivial completion
  phrase (its words, joined by single spaces, are one of the seven phrases with any number
  of \<open>.\<close> and \<open>!\<close> after it, in at most 48 characters); in that case the returned text
  begins with \<open>Approval received.\<close>. In all other cases \<open>forcedApprovedStatus\<close> is
  false.
\<close>

theorem C5_forced_approved_status:
  "(forcedApprovedStatus (resolveTurnResponseText inp)
      \<longleftrightarrow> approvalWasGranted inp
          \<and> (raw_empty_after_trim (rawText inp) \<or> raw_has_approval_reask (rawText inp)
             \<or> raw_is_trivial_completion (rawText inp)))
   \<and> (forcedApprovedStatus (resolveTurnResponseText inp)
      \<longrightarrow> take 18 (rt_text (resolveTurnResponseText inp)) = ''Approval received.'')"
proof -
  have cond: "shouldForceApprovedStatus inp
      \<longleftrightarrow> approvalWasGranted inp
          \<and> (raw_empty_after_trim (rawText inp) \<or> raw_has_approval_reask (rawText inp)
             \<or> raw_is_trivial_completion (rawText inp))"
    by (simp only: shouldForceApprovedStatus_def turn_text_empty turn_text_reask
        turn_text_trivial)
  show ?thesis
  proof (cases "shouldForceApprovedStatus inp")
    case True
    then have "forcedApprovedStatus (resolveTurnResponseText inp)"
      by (simp add: resolveTurnResponseText_def Let_def)
    moreover have "take 18 (rt_text (resolveTurnResponseText inp)) = ''Approval received.''"
      using True status_prefix [of "toolResults inp"] status_length [of "toolResults inp"]
      by (simp add: resolveTurnResponseText_def Let_def)
    ultimately show ?thesis using True cond by simp
  next
    case False
    then have "\<not> forcedApprovedStatus (resolveTurnResponseText inp)"
      by (simp add: resolveTurnResponseText_def Let_def)
    then show ?thesis using False cond by simp
  qed
qed

theorem C5_forced_approved_status_witness:
  "forcedApprovedStatus (resolveTurnResponseText blank_turn)
   \<and> rt_text (resolveTurnResponseText blank_turn) = ''Approval received. Protected action executed.''
   \<and> \<not> forcedApprovedStatus (resolveTurnResponseText (blank_turn\<lparr>approvalWasGranted := False\<rparr>))
   \<and> forcedApprovedStatus (resolveTurnResponseText (approved_turn (Some ''   '')))
   \<and> forcedApprovedStatus (resolveTurnResponseText (approved_turn None))
   \<and> forcedApprovedStatus (resolveTurnResponseText (approved_turn (Some '' Done!! '')))
   \<and> forcedApprovedStatus (resolveTurnResponseText (approved_turn (Some ''  All   SET. '')))
   \<and> forcedApprovedStatus
       (resolveTurnResponseText (approved_turn (Some '' Sent. Do you approve? '')))
   \<and> take 18 (rt_text (resolveTurnResponseText (approved_turn (Some ''   ''))))
       = ''Approval received.''
   \<and> \<not> forcedApprovedStatus (resolveTurnResponseText (approved_turn (Some ''Sent 2 TON to EQabc.'')))
   \<and> \<not> forcedApprovedStatus (resolveTurnResponseText (approved_turn (Some ''Done with errors'')))
   \<and> \<not> forcedApprovedStatus
         (resolveTurnResponseText (approved_turn (Some (''done'' @ replicate 45 CHR ''!''))))"
proof -
  have granted: "approvalWasGranted (approved_turn raw)" "rawText (approved_turn raw) = raw" for raw
    by (simp_all add: approved_turn_def)
  have blank: "approvalWasGranted blank_turn" "raw_empty_after_trim (rawText blank_turn)"
    "\<not> approvalWasGranted (blank_turn\<lparr>approvalWasGranted := False\<rparr>)"
    by (simp_all add: blank_turn_def raw_empty_after_trim_def is_js_space_def)
  have spaces: "raw_empty_after_trim (Some ''   '')" "raw_empty_after_trim None"
    by (simp_all add: raw_empty_after_trim_def is_js_space_def)
  have trivial: "raw_is_trivial_completion (Some '' Done!! '')"
    "raw_is_trivial_completion (Some ''  All   SET. '')"
    by code_simp+
  have reask: "raw_has_approval_reask (Some '' Sent. Do you approve? '')"
    by code_simp
  have plain: "\<not> raw_empty_after_trim (Some ''Sent 2 TON to EQabc.'')"
    "\<not> raw_has_approval_reask (Some ''Sent 2 TON to EQabc.'')"
    "\<not> raw_is_trivial_completion (Some ''Sent 2 TON to EQabc.'')"
    "\<not> raw_empty_after_trim (Some ''Done with errors'')"
    "\<not> raw_has_approval_reask (Some ''Done with errors'')"
    "\<not> raw_is_trivial_completion (Some ''Done with errors'')"
    "\<not> raw_empty_after_trim (Some (''done'' @ replicate 45 CHR ''!''))"
    "\<not> raw_has_approval_reask (Some (''done'' @ replicate 45 CHR ''!''))"
    "\<not> raw_is_trivial_completion (Some (''done'' @ replicate 45 CHR ''!''))"
    by code_simp+
  have shown: "rt_text (resolveTurnResponseText blank_turn)
                 = ''Approval received. Protected action executed.''"
    by code_simp
  show ?thesis
    using C5_forced_approved_status [of blank_turn]
      C5_forced_approved_status [of "blank_turn\<lparr>approvalWasGranted := False\<rparr>"]
      C5_forced_approved_status [of "approved_turn (Some ''   '')"]
      C5_forced_approved_status [of "approved_turn None"]
      C5_forced_approved_status [of "approved_turn (Some '' Done!! '')"]
      C5_forced_approved_status [of "approved_turn (Some ''  All   SET. '')"]
      C5_forced_approved_status [of "approved_turn (Some '' Sent. Do you approve? '')"]
      C5_forced_approved_status [of "approved_turn (Some ''Sent 2 TON to EQabc.'')"]
      C5_forced_approved_status [of "approved_turn (Some ''Done with errors'')"]
      C5_forced_approved_status [of "approved_turn (Some (''done'' @ replicate 45 CHR ''!''))"]
      granted blank spaces trivial reask plain shown
    by (simp only: simp_thms)
qed

section \<open>Theorems: risk assessment\<close>

lemma gas_known: "gasTon (assessApproval toNumber toFixed6 name toolInput profile) \<noteq> None"
  by (simp add: assessApproval_def Let_def)

text \<open>
  C8: what the code does. The gas estimate falls back to a default before the confidence
  is computed, so it is never null: the confidence is \<open>high\<close> when a value estimate was
  extracted and \<open>medium\<close> otherwise, and never \<open>low\<close>. For an input with no value or gas
  hint it is \<open>medium\<close> (the claim says \<open>low\<close>); for an input with a value hint only it is
  \<open>high\<close> (the claim says \<open>medium\<close>).
\<close>

theorem C8_confidence_never_low:
  "confidence (assessApproval toNumber toFixed6 name toolInput profile)
     = (if pickEstimate (walkNumericCandidates toNumber toolInput []) VALUE_HINTS \<noteq> None
        then ConfidenceHigh else ConfidenceMedium)
   \<and> confidence (assessApproval toNumber toFixed6 name toolInput profile) \<noteq> ConfidenceLow
   \<and> pickEstimate (walkNumericCandidates toNumber no_hint_input []) VALUE_HINTS = None
   \<and> pickEstimate (walkNumericCandidates toNumber no_hint_input []) GAS_HINTS = None
   \<and> confidence (assessApproval toNumber toFixed6 name no_hint_input profile) = ConfidenceMedium
   \<and> pickEstimate (walkNumericCandidates toNumber value_only_input []) VALUE_HINTS = Some (5 / 2)
   \<and> pickEstimate (walkNumericCandidates toNumber value_only_input []) GAS_HINTS = None
   \<and> confidence (assessApproval toNumber toFixed6 name value_only_input profile) = ConfidenceHigh"
proof -
  have general: "confidence (assessApproval toNumber toFixed6 name j profile)
     = (if pickEstimate (walkNumericCandidates toNumber j []) VALUE_HINTS \<noteq> None
        then ConfidenceHigh else ConfidenceMedium)" for j
    by (simp add: assessApproval_def Let_def)
  have no_hint: "pickEstimate (walkNumericCandidates toNumber no_hint_input []) hints = None"
    if "hints = VALUE_HINTS \<or> hints = GAS_HINTS" for hints
    using that
    by (cases "toNumber ''EQabc123''")
       (auto simp: no_hint_input_def pickEstimate_def parseNumberish_def js_trim_def
          is_js_space_def toLowerCase_def VALUE_HINTS_def GAS_HINTS_def Let_def)
  have value_only: "pickEstimate (walkNumericCandidates toNumber value_only_input []) VALUE_HINTS
                      = Some (5 / 2)"
    "pickEstimate (walkNumericCandidates toNumber value_only_input []) GAS_HINTS = None"
    by (cases "toNumber ''EQabc123''";
        simp add: value_only_input_def pickEstimate_def parseNumberish_def js_trim_def
          is_js_space_def toLowerCase_def VALUE_HINTS_def GAS_HINTS_def Let_def toTonValue_def)+
  show ?thesis
    using general [of toolInput] general [of no_hint_input] general [of value_only_input]
      no_hint [of VALUE_HINTS] no_hint [of GAS_HINTS] value_only
    by simp
qed

theorem C8_confidence_never_low_witness:
  "confidence (assessApproval no_number no_digits ''tonSendBlockchainMessage'' no_hint_input Balanced)
     = ConfidenceMedium
   \<and> valueTon (assessApproval no_number no_digits ''tonSendBlockchainMessage'' no_hint_input Balanced)
     = None
   \<and> confidence (assessApproval no_number no_digits ''tonSendBlockchainMessage'' value_only_input Balanced)
     = ConfidenceHigh"
proof -
  have "valueTon (assessApproval no_number no_digits ''tonSendBlockchainMessage'' no_hint_input Balanced)
          = pickEstimate (walkNumericCandidates no_number no_hint_input []) VALUE_HINTS"
    by (simp add: assessApproval_def Let_def)
  then show ?thesis
    using C8_confidence_never_low
      [of no_number no_digits "''tonSendBlockchainMessage''" no_hint_input Balanced]
    by simp
qed

end
